theory Spec2Isabelle
  imports Complex_Main "HOL-Library.Log_Nat"
begin

section \<open>Characters and strings\<close>

text \<open>
  Input texts are sequences of 8-bit characters, read as the code units U+0000 to U+00FF.
  JavaScript's \<^verbatim>\<open>\s\<close>, \<^verbatim>\<open>trim\<close> and \<^verbatim>\<open>Number\<close> agree on the white space characters;
  among these code units they are tab, line feed, vertical tab, form feed, carriage
  return, space and the no-break space U+00A0. \<^verbatim>\<open>\d\<close> is the ten decimal digits.
\<close>

definition isSpace :: "char \<Rightarrow> bool" where
  "isSpace c =
     (c \<in> set [CHR 0x09, CHR 0x0A, CHR 0x0B, CHR 0x0C, CHR 0x0D, CHR '' '', CHR 0xA0])"

definition isDigit :: "char \<Rightarrow> bool" where
  "isDigit c = (c \<in> set ''0123456789'')"

text \<open>
  \<^verbatim>\<open>toLowerCase\<close> changes the letters \<^verbatim>\<open>A\<close> to \<^verbatim>\<open>Z\<close> and the capital letters U+00C0 to
  U+00DE (the multiplication sign U+00D7 is no letter) and leaves every other code unit.
\<close>

definition upperLetters :: string where
  "upperLetters =
     ''ABCDEFGHIJKLMNOPQRSTUVWXYZ'' @
     [CHR 0xC0, CHR 0xC1, CHR 0xC2, CHR 0xC3, CHR 0xC4, CHR 0xC5, CHR 0xC6, CHR 0xC7,
      CHR 0xC8, CHR 0xC9, CHR 0xCA, CHR 0xCB, CHR 0xCC, CHR 0xCD, CHR 0xCE, CHR 0xCF,
      CHR 0xD0, CHR 0xD1, CHR 0xD2, CHR 0xD3, CHR 0xD4, CHR 0xD5, CHR 0xD6, CHR 0xD8,
      CHR 0xD9, CHR 0xDA, CHR 0xDB, CHR 0xDC, CHR 0xDD, CHR 0xDE]"

definition lowerLetters :: string where
  "lowerLetters =
     ''abcdefghijklmnopqrstuvwxyz'' @
     [CHR 0xE0, CHR 0xE1, CHR 0xE2, CHR 0xE3, CHR 0xE4, CHR 0xE5, CHR 0xE6, CHR 0xE7,
      CHR 0xE8, CHR 0xE9, CHR 0xEA, CHR 0xEB, CHR 0xEC, CHR 0xED, CHR 0xEE, CHR 0xEF,
      CHR 0xF0, CHR 0xF1, CHR 0xF2, CHR 0xF3, CHR 0xF4, CHR 0xF5, CHR 0xF6, CHR 0xF8,
      CHR 0xF9, CHR 0xFA, CHR 0xFB, CHR 0xFC, CHR 0xFD, CHR 0xFE]"

definition lowerChar :: "char \<Rightarrow> char" where
  "lowerChar c = (case map_of (zip upperLetters lowerLetters) c of Some d \<Rightarrow> d | None \<Rightarrow> c)"

definition toLowerCase :: "string \<Rightarrow> string" where
  "toLowerCase s = map lowerChar s"

definition trim :: "string \<Rightarrow> string" where
  "trim s = rev (dropWhile isSpace (rev (dropWhile isSpace s)))"

text \<open>
  \<^verbatim>\<open>s.split(/\s*arc\s*/)\<close>. The splitter looks for a match at each position from the end
  of the previous match. Both \<^verbatim>\<open>\s*\<close> are greedy and the letter \<^verbatim>\<open>a\<close> is no white space,
  so a match at a position exists exactly when the text after the white space there starts
  with \<^verbatim>\<open>arc\<close>, and it ends after the white space that follows. The pattern never matches
  the empty string, so the result always has at least one piece.
\<close>

definition matchArc :: "string \<Rightarrow> string option" where
  "matchArc s =
     (let r = dropWhile isSpace s
      in if take 3 r = ''arc'' then Some (dropWhile isSpace (drop 3 r)) else None)"

function splitArc :: "string \<Rightarrow> string \<Rightarrow> string list" where
  "splitArc acc [] = [rev acc]"
| "splitArc acc (c # cs) =
     (case matchArc (c # cs) of
        Some rest \<Rightarrow> rev acc # splitArc [] rest
      | None \<Rightarrow> splitArc (c # acc) cs)"
  by pat_completeness auto
termination
proof (relation "measure (\<lambda>(acc, s). length s)")
  fix acc :: string and c :: char and cs rest :: string
  assume a: "matchArc (c # cs) = Some rest"
  define r where "r = dropWhile isSpace (c # cs)"
  from a have r3: "take 3 r = ''arc''" and t: "rest = dropWhile isSpace (drop 3 r)"
    by (auto simp: matchArc_def r_def Let_def split: if_splits)
  from r3 have "length (take 3 r) = 3" by simp
  then have "3 \<le> length r" by simp
  moreover have "length rest \<le> length r - 3"
    unfolding t using length_dropWhile_le[of isSpace "drop 3 r"] by simp
  moreover have "length r \<le> length (c # cs)"
    unfolding r_def by (rule length_dropWhile_le)
  ultimately have "length rest < length (c # cs)" by linarith
  then show "(([], rest), (acc, c # cs)) \<in> measure (\<lambda>(acc, s). length s)" by simp
qed auto

declare splitArc.simps [simp del]

text \<open>\<^verbatim>\<open>s.split(/\s+/)\<close>: a match starts at a white space character and takes the whole run.\<close>

function splitSpaces :: "string \<Rightarrow> string \<Rightarrow> string list" where
  "splitSpaces acc [] = [rev acc]"
| "splitSpaces acc (c # cs) =
     (if isSpace c then rev acc # splitSpaces [] (dropWhile isSpace cs)
      else splitSpaces (c # acc) cs)"
  by pat_completeness auto
termination
proof (relation "measure (\<lambda>(acc, s). length s)")
  fix acc :: string and c :: char and cs :: string
  have "length (dropWhile isSpace cs) \<le> length cs" by (rule length_dropWhile_le)
  then show "(([], dropWhile isSpace cs), (acc, c # cs)) \<in> measure (\<lambda>(acc, s). length s)"
    by simp
qed auto

declare splitSpaces.simps [simp del]

section \<open>Numbers\<close>

text \<open>
  A JavaScript number is an IEEE 754 binary64 value. A finite one is modelled by the
  rational it denotes, and every arithmetic operation rounds its exact result to the
  nearest binary64 value, ties to even, with gradual underflow and overflow to infinity.
  The two zeros are identified: the program never divides by a zero and prints both as
  \<^verbatim>\<open>0\<close>.
\<close>

datatype jsnum = NaN | PInf | NInf | Fin rat

definition round_half_even :: "rat \<Rightarrow> int" where
  "round_half_even r =
     (let f = \<lfloor>r\<rfloor>; d = r - of_int f
      in if d < 1/2 then f else if 1/2 < d then f + 1 else if even f then f else f + 1)"

text \<open>\<open>ilog2 x\<close> is the exponent \<open>e\<close> with \<open>2^e \<le> x < 2^(e+1)\<close>, for positive \<open>x\<close>.\<close>

definition ilog2 :: "rat \<Rightarrow> int" where
  "ilog2 x = (if 1 \<le> x then bitlen \<lfloor>x\<rfloor> - 1 else - bitlen (\<lceil>1 / x\<rceil> - 1))"

text \<open>The exponent of the last place: 53 significant bits, least exponent \<open>-1022\<close>.\<close>

definition fexp :: "rat \<Rightarrow> int" where
  "fexp x = max (ilog2 \<bar>x\<bar>) (- 1022) - 52"

definition rnd :: "rat \<Rightarrow> jsnum" where
  "rnd x =
     (if x = 0 then Fin 0
      else let q = 2 powi (fexp x); y = of_int (round_half_even (x / q)) * q
           in if 2 ^ 1024 \<le> \<bar>y\<bar> then (if 0 < x then PInf else NInf) else Fin y)"

definition isNaN :: "jsnum \<Rightarrow> bool" where
  "isNaN x = (x = NaN)"

fun fneg :: "jsnum \<Rightarrow> jsnum" where
  "fneg NaN = NaN"
| "fneg PInf = NInf"
| "fneg NInf = PInf"
| "fneg (Fin a) = Fin (- a)"

fun fadd :: "jsnum \<Rightarrow> jsnum \<Rightarrow> jsnum" where
  "fadd NaN _ = NaN"
| "fadd _ NaN = NaN"
| "fadd PInf NInf = NaN"
| "fadd NInf PInf = NaN"
| "fadd PInf _ = PInf"
| "fadd NInf _ = NInf"
| "fadd _ PInf = PInf"
| "fadd _ NInf = NInf"
| "fadd (Fin a) (Fin b) = rnd (a + b)"

definition fsub :: "jsnum \<Rightarrow> jsnum \<Rightarrow> jsnum" where
  "fsub x y = fadd x (fneg y)"

definition infMul :: "bool \<Rightarrow> rat \<Rightarrow> jsnum" where
  "infMul pos b = (if b = 0 then NaN else if (0 < b) = pos then PInf else NInf)"

fun fmul :: "jsnum \<Rightarrow> jsnum \<Rightarrow> jsnum" where
  "fmul NaN _ = NaN"
| "fmul _ NaN = NaN"
| "fmul PInf PInf = PInf"
| "fmul PInf NInf = NInf"
| "fmul NInf PInf = NInf"
| "fmul NInf NInf = PInf"
| "fmul PInf (Fin b) = infMul True b"
| "fmul NInf (Fin b) = infMul False b"
| "fmul (Fin a) PInf = infMul True a"
| "fmul (Fin a) NInf = infMul False a"
| "fmul (Fin a) (Fin b) = rnd (a * b)"

text \<open>
  Division. Every divisor in the program is a nonzero constant; for a zero divisor the
  sign of the zero, which is not modelled, is taken as positive.
\<close>

fun fdiv :: "jsnum \<Rightarrow> jsnum \<Rightarrow> jsnum" where
  "fdiv NaN _ = NaN"
| "fdiv _ NaN = NaN"
| "fdiv PInf PInf = NaN"
| "fdiv PInf NInf = NaN"
| "fdiv NInf PInf = NaN"
| "fdiv NInf NInf = NaN"
| "fdiv PInf (Fin b) = (if 0 \<le> b then PInf else NInf)"
| "fdiv NInf (Fin b) = (if 0 \<le> b then NInf else PInf)"
| "fdiv (Fin a) PInf = Fin 0"
| "fdiv (Fin a) NInf = Fin 0"
| "fdiv (Fin a) (Fin b) =
     (if b = 0 then (if a = 0 then NaN else if 0 < a then PInf else NInf)
      else rnd (a / b))"

fun ffloor :: "jsnum \<Rightarrow> jsnum" where
  "ffloor (Fin a) = Fin (of_int \<lfloor>a\<rfloor>)"
| "ffloor x = x"

fun fabs :: "jsnum \<Rightarrow> jsnum" where
  "fabs (Fin a) = Fin \<bar>a\<bar>"
| "fabs NaN = NaN"
| "fabs _ = PInf"

text \<open>The comparisons \<^verbatim>\<open><\<close> and \<^verbatim>\<open><=\<close>: false whenever an operand is NaN.\<close>

fun flt :: "jsnum \<Rightarrow> jsnum \<Rightarrow> bool" where
  "flt NaN _ = False"
| "flt _ NaN = False"
| "flt PInf _ = False"
| "flt _ NInf = False"
| "flt NInf _ = True"
| "flt _ PInf = True"
| "flt (Fin a) (Fin b) = (a < b)"

fun fle :: "jsnum \<Rightarrow> jsnum \<Rightarrow> bool" where
  "fle NaN _ = False"
| "fle _ NaN = False"
| "fle NInf _ = True"
| "fle _ PInf = True"
| "fle PInf _ = False"
| "fle _ NInf = False"
| "fle (Fin a) (Fin b) = (a \<le> b)"

text \<open>
  \<open>isFinite\<close> holds of the finite numbers. \<open>isDouble\<close> holds of the values that
  rounding produces: for these, rounding changes nothing.
\<close>

definition isFinite :: "jsnum \<Rightarrow> bool" where
  "isFinite x = (case x of Fin a \<Rightarrow> True | _ \<Rightarrow> False)"

definition isDouble :: "jsnum \<Rightarrow> bool" where
  "isDouble x = (case x of Fin a \<Rightarrow> rnd a = Fin a | _ \<Rightarrow> True)"

subsection \<open>Text to number\<close>

text \<open>
  \<^verbatim>\<open>Number(s)\<close> on a string: white space around the text is dropped; the empty text is
  \<open>0\<close>; \<^verbatim>\<open>0x\<close>, \<^verbatim>\<open>0o\<close> and \<^verbatim>\<open>0b\<close> introduce an unsigned hexadecimal, octal or binary
  integer; anything else must be an optionally signed decimal literal (digits with an
  optional fraction and exponent, or \<^verbatim>\<open>Infinity\<close>). Every other text is NaN. The value is
  the literal's exact value rounded to binary64.
\<close>

definition digitOf :: "char \<Rightarrow> nat option" where
  "digitOf c =
     map_of (zip ''0123456789abcdefABCDEF''
               [0, 1, 2, 3, 4, 5, 6, 7, 8, 9, 10, 11, 12, 13, 14, 15, 10, 11, 12, 13, 14, 15]) c"

definition digitsVal :: "nat \<Rightarrow> string \<Rightarrow> nat option" where
  "digitsVal b s =
     (if s = [] then None
      else fold (\<lambda>c acc. case acc of
                   None \<Rightarrow> None
                 | Some a \<Rightarrow> (case digitOf c of
                      None \<Rightarrow> None
                    | Some d \<Rightarrow> if d < b then Some (a * b + d) else None))
             s (Some 0))"

definition nonDecimal :: "string \<Rightarrow> nat option" where
  "nonDecimal s =
     (case s of
        z # p # ds \<Rightarrow>
          if z \<noteq> CHR ''0'' then None
          else if p = CHR ''x'' \<or> p = CHR ''X'' then digitsVal 16 ds
          else if p = CHR ''o'' \<or> p = CHR ''O'' then digitsVal 8 ds
          else if p = CHR ''b'' \<or> p = CHR ''B'' then digitsVal 2 ds
          else None
      | _ \<Rightarrow> None)"

definition exponentPart :: "string \<Rightarrow> int option" where
  "exponentPart r =
     (case r of
        [] \<Rightarrow> Some 0
      | e # t \<Rightarrow>
          if e = CHR ''e'' \<or> e = CHR ''E'' then
            (case t of
               s # ds \<Rightarrow>
                 if s = CHR ''+'' then map_option int (digitsVal 10 ds)
                 else if s = CHR ''-'' then map_option (\<lambda>n. - int n) (digitsVal 10 ds)
                 else map_option int (digitsVal 10 t)
             | [] \<Rightarrow> None)
          else None)"

definition unsignedDecimal :: "string \<Rightarrow> rat option" where
  "unsignedDecimal s =
     (let ip = takeWhile isDigit s;
          r1 = dropWhile isDigit s;
          fp = (case r1 of d # t \<Rightarrow> if d = CHR ''.'' then takeWhile isDigit t else [] | [] \<Rightarrow> []);
          r2 = (case r1 of d # t \<Rightarrow> if d = CHR ''.'' then dropWhile isDigit t else r1 | [] \<Rightarrow> [])
      in if ip = [] \<and> fp = [] then None
         else (case (digitsVal 10 (ip @ fp), exponentPart r2) of
                 (Some m, Some e) \<Rightarrow> Some (of_nat m * 10 powi (e - int (length fp)))
               | _ \<Rightarrow> None))"

definition unsignedNumber :: "string \<Rightarrow> jsnum" where
  "unsignedNumber s =
     (if s = ''Infinity'' then PInf
      else case unsignedDecimal s of None \<Rightarrow> NaN | Some q \<Rightarrow> rnd q)"

definition Number :: "string \<Rightarrow> jsnum" where
  "Number s =
     (let t = trim s
      in if t = [] then Fin 0
         else case nonDecimal t of
                Some n \<Rightarrow> rnd (of_nat n)
              | None \<Rightarrow>
                  (case t of
                     c # u \<Rightarrow>
                       if c = CHR ''+'' then unsignedNumber u
                       else if c = CHR ''-'' then fneg (unsignedNumber u)
                       else unsignedNumber t
                   | [] \<Rightarrow> Fin 0))"

section \<open>The calendar engine\<close>

subsection \<open>Parsing a date\<close>

record CyberDate =
  klik :: "jsnum option"
  chord :: "jsnum option"
  cycle :: "jsnum option"
  solarCycle :: "jsnum option"

text \<open>A thrown \<^verbatim>\<open>new Error(message)\<close>.\<close>

datatype error = Error string

text \<open>
  The two nested \<^verbatim>\<open>forEach\<close> loops that flatten the parsed parts into \<^verbatim>\<open>numbers\<close>,
  throwing at the first NaN.
\<close>

fun pushPart :: "jsnum list \<Rightarrow> jsnum list \<Rightarrow> error + jsnum list" where
  "pushPart numbers [] = Inr numbers"
| "pushPart numbers (n # arr) =
     (if isNaN n then Inl (Error ''Invalid number in date'')
      else pushPart (numbers @ [n]) arr)"

fun pushParts :: "jsnum list \<Rightarrow> jsnum list list \<Rightarrow> error + jsnum list" where
  "pushParts numbers [] = Inr numbers"
| "pushParts numbers (arr # parsedParts) =
     (case pushPart numbers arr of
        Inl e \<Rightarrow> Inl e
      | Inr numbers' \<Rightarrow> pushParts numbers' parsedParts)"

definition arcPartsOf :: "string \<Rightarrow> string list" where
  "arcPartsOf input = splitArc [] (toLowerCase (trim input))"

definition parsedPartsOf :: "string \<Rightarrow> jsnum list list" where
  "parsedPartsOf input = map (\<lambda>part. map Number (splitSpaces [] (trim part))) (arcPartsOf input)"

definition flattenNumbers :: "string \<Rightarrow> error + jsnum list" where
  "flattenNumbers input = pushParts [] (parsedPartsOf input)"

definition emptyDate :: CyberDate where
  "emptyDate = \<lparr>klik = None, chord = None, cycle = None, solarCycle = None\<rparr>"

text \<open>The assignment by the length of \<^verbatim>\<open>numbers\<close>; \<open>None\<close> is the \<^verbatim>\<open>return null\<close>.\<close>

definition assignFields :: "jsnum list \<Rightarrow> CyberDate option" where
  "assignFields numbers =
     (if length numbers = 4 then
        Some (emptyDate\<lparr>klik := Some (numbers ! 0), chord := Some (numbers ! 1),
                cycle := Some (numbers ! 2), solarCycle := Some (numbers ! 3)\<rparr>)
      else if length numbers = 3 then
        Some (emptyDate\<lparr>chord := Some (numbers ! 0), cycle := Some (numbers ! 1),
                solarCycle := Some (numbers ! 2)\<rparr>)
      else if length numbers = 2 then
        Some (emptyDate\<lparr>klik := Some (numbers ! 0), chord := Some (numbers ! 1)\<rparr>)
      else if length numbers = 1 then
        Some (emptyDate\<lparr>cycle := Some (numbers ! 0)\<rparr>)
      else None)"

text \<open>
  \<^verbatim>\<open>parseCybertronianDate\<close>: \<open>Inl\<close> is the thrown error, \<open>Inr None\<close> the returned
  \<^verbatim>\<open>null\<close>, \<open>Inr (Some d)\<close> the returned date.
\<close>

definition parseCybertronianDate :: "string \<Rightarrow> error + CyberDate option" where
  "parseCybertronianDate input =
     (if length (arcPartsOf input) < 1 then Inr None
      else case flattenNumbers input of
             Inl e \<Rightarrow> Inl e
           | Inr numbers \<Rightarrow> Inr (assignFields numbers))"

text \<open>A call fails when it throws or returns \<^verbatim>\<open>null\<close>, which every caller turns into an error.\<close>

definition parseFails :: "error + CyberDate option \<Rightarrow> bool" where
  "parseFails r = (case r of Inr (Some date) \<Rightarrow> False | _ \<Rightarrow> True)"

text \<open>
  The specification's reading of the parser, to compare with the code: after trimming and
  lower-casing, every occurrence of the keyword \<^verbatim>\<open>arc\<close> separates, as white space does; the
  tokens are the pieces of text between separators, none of them empty; each token is
  read as a number; the parse fails when a token is no number, and otherwise assigns the
  numbers by their count.
\<close>

function spec_blankArc :: "string \<Rightarrow> string" where
  "spec_blankArc [] = []"
| "spec_blankArc (c # cs) =
     (if take 3 (c # cs) = ''arc'' then CHR '' '' # spec_blankArc (drop 2 cs)
      else c # spec_blankArc cs)"
  by pat_completeness auto
termination
  by (relation "measure length") auto

definition spec_split :: "string \<Rightarrow> string list" where
  "spec_split s = foldr (\<lambda>c acc. if isSpace c then [] # acc else (c # hd acc) # tl acc) s [[]]"

definition spec_tokens :: "string \<Rightarrow> string list" where
  "spec_tokens input =
     filter (\<lambda>w. w \<noteq> []) (spec_split (spec_blankArc (toLowerCase (trim input))))"

definition spec_numbers :: "string \<Rightarrow> jsnum list" where
  "spec_numbers input = map Number (spec_tokens input)"

definition spec_parse :: "string \<Rightarrow> CyberDate option" where
  "spec_parse input =
     (let numbers = spec_numbers input
      in if list_ex isNaN numbers then None
         else case numbers of
                [k, ch, cy, sc] \<Rightarrow>
                  Some \<lparr>klik = Some k, chord = Some ch, cycle = Some cy, solarCycle = Some sc\<rparr>
              | [ch, cy, sc] \<Rightarrow>
                  Some \<lparr>klik = None, chord = Some ch, cycle = Some cy, solarCycle = Some sc\<rparr>
              | [k, ch] \<Rightarrow> Some \<lparr>klik = Some k, chord = Some ch, cycle = None, solarCycle = None\<rparr>
              | [cy] \<Rightarrow> Some \<lparr>klik = None, chord = None, cycle = Some cy, solarCycle = None\<rparr>
              | _ \<Rightarrow> None)"

subsection \<open>Unit constants\<close>

definition EARTH_YEAR_IN_DAYS :: jsnum where
  "EARTH_YEAR_IN_DAYS = Fin 365.25"

definition SOLAR_CYCLE_YEARS :: jsnum where
  "SOLAR_CYCLE_YEARS = Fin 10"

definition SOLAR_CYCLE_DAYS :: jsnum where
  "SOLAR_CYCLE_DAYS = fmul SOLAR_CYCLE_YEARS EARTH_YEAR_IN_DAYS"

definition CYCLE :: jsnum where
  "CYCLE = fdiv SOLAR_CYCLE_DAYS (Fin 1000)"

subsection \<open>Dates and seconds\<close>


definition cyberDateToEarthSeconds :: "CyberDate \<Rightarrow> jsnum" where
  "cyberDateToEarthSeconds date =
     (let totalDays = Fin 0;
          totalDays = (case solarCycle date of
                         Some v \<Rightarrow> fadd totalDays (fmul v SOLAR_CYCLE_DAYS)
                       | None \<Rightarrow> totalDays);
          totalDays = (case cycle date of
                         Some v \<Rightarrow> fadd totalDays (fmul v CYCLE)
                       | None \<Rightarrow> totalDays);
          totalDays = (case chord date of
                         Some v \<Rightarrow> fadd totalDays (fmul v (fdiv CYCLE (Fin 10)))
                       | None \<Rightarrow> totalDays);
          totalDays = (case klik date of
                         Some v \<Rightarrow> fadd totalDays (fmul v (fdiv CYCLE (Fin 1000)))
                       | None \<Rightarrow> totalDays)
      in fmul totalDays (Fin 86400))"

definition earthSecondsToCyberDate :: "jsnum \<Rightarrow> CyberDate" where
  "earthSecondsToCyberDate seconds =
     (let totalDays = fdiv seconds (Fin 86400);
          solarCycle = ffloor (fdiv totalDays SOLAR_CYCLE_DAYS);
          totalDays = fsub totalDays (fmul solarCycle SOLAR_CYCLE_DAYS);
          cycle = ffloor (fdiv totalDays CYCLE);
          totalDays = fsub totalDays (fmul cycle CYCLE);
          chord = ffloor (fdiv totalDays (fdiv CYCLE (Fin 10)));
          totalDays = fsub totalDays (fmul chord (fdiv CYCLE (Fin 10)));
          klik = ffloor (fdiv totalDays (fdiv CYCLE (Fin 1000)))
      in \<lparr>klik = Some klik, chord = Some chord, cycle = Some cycle,
            solarCycle = Some solarCycle\<rparr>)"

subsection \<open>Formatting\<close>

text \<open>
  A text built by a template literal or by \<^verbatim>\<open>+\<close> is modelled by its pieces in order:
  literal text and interpolated numbers. The platform's number-to-string conversion turns
  the pieces into characters. It prints an integer below \<open>2^53\<close> in magnitude as its
  decimal digits; its digit generation for every other finite value is not repository
  code and is the parameter \<open>other\<close> of \<open>render\<close>.
\<close>

datatype piece = Lit string | Num jsnum

definition digitChar :: "nat \<Rightarrow> char" where
  "digitChar d = ''0123456789'' ! d"

function showNat :: "nat \<Rightarrow> string" where
  "showNat n = (if n < 10 then [digitChar n] else showNat (n div 10) @ [digitChar (n mod 10)])"
  by pat_completeness auto
termination
  by (relation "measure id") auto

declare showNat.simps [simp del]

definition numToString :: "(rat \<Rightarrow> string) \<Rightarrow> jsnum \<Rightarrow> string" where
  "numToString other x =
     (case x of
        NaN \<Rightarrow> ''NaN''
      | PInf \<Rightarrow> ''Infinity''
      | NInf \<Rightarrow> ''-Infinity''
      | Fin a \<Rightarrow>
          if a = of_int \<lfloor>a\<rfloor> \<and> \<bar>a\<bar> < 2 ^ 53 then
            (if a < 0 then CHR ''-'' # showNat (nat \<lfloor>- a\<rfloor>) else showNat (nat \<lfloor>a\<rfloor>))
          else other a)"

fun render :: "(rat \<Rightarrow> string) \<Rightarrow> piece list \<Rightarrow> string" where
  "render other [] = []"
| "render other (Lit s # ps) = s @ render other ps"
| "render other (Num x # ps) = numToString other x @ render other ps"

definition formatCyberDate :: "CyberDate \<Rightarrow> piece list" where
  "formatCyberDate date =
     (if solarCycle date \<noteq> None \<and> cycle date \<noteq> None \<and> chord date \<noteq> None
         \<and> klik date \<noteq> None then
        [Num (the (klik date)), Lit '' arc '', Num (the (chord date)), Lit '' '',
         Num (the (cycle date)), Lit '' arc '', Num (the (solarCycle date))]
      else if solarCycle date \<noteq> None \<and> cycle date \<noteq> None \<and> chord date \<noteq> None
         \<and> klik date = None then
        [Num (the (chord date)), Lit '' '', Num (the (cycle date)), Lit '' arc '',
         Num (the (solarCycle date))]
      else if klik date \<noteq> None \<and> chord date \<noteq> None then
        [Num (the (klik date)), Lit '' arc '', Num (the (chord date))]
      else if cycle date \<noteq> None then
        [Num (the (cycle date))]
      else [Lit ''Invalid date''])"

subsection \<open>Difference of two dates\<close>

record DateDifference =
  diffSeconds :: jsnum
  diffCyber :: CyberDate

definition differenceBetweenDates :: "CyberDate \<Rightarrow> CyberDate \<Rightarrow> DateDifference" where
  "differenceBetweenDates date1 date2 =
     (let seconds1 = cyberDateToEarthSeconds date1;
          seconds2 = cyberDateToEarthSeconds date2;
          diffSeconds = fabs (fsub seconds2 seconds1);
          diffCyber = earthSecondsToCyberDate diffSeconds
      in \<lparr>diffSeconds = diffSeconds, diffCyber = diffCyber\<rparr>)"

subsection \<open>Human durations\<close>

definition units :: "(string \<times> jsnum) list" where
  "units =
     [(''year'', fmul (Fin 365.25) (Fin 86400)), (''years'', fmul (Fin 365.25) (Fin 86400)),
      (''week'', fmul (Fin 7) (Fin 86400)), (''weeks'', fmul (Fin 7) (Fin 86400)),
      (''day'', Fin 86400), (''days'', Fin 86400),
      (''hour'', Fin 3600), (''hours'', Fin 3600),
      (''minute'', Fin 60), (''minutes'', Fin 60),
      (''second'', Fin 1), (''seconds'', Fin 1)]"

text \<open>A value in a condition: \<^verbatim>\<open>undefined\<close> (a missing key), \<open>0\<close> and NaN are false.\<close>

definition truthy :: "jsnum option \<Rightarrow> bool" where
  "truthy v = (case v of None \<Rightarrow> False | Some x \<Rightarrow> x \<noteq> NaN \<and> x \<noteq> Fin 0)"

text \<open>
  The pattern \<^verbatim>\<open>/(\d+)\s*(years?|weeks?|days?|hours?|minutes?|seconds?)/gi\<close>.
  One alternative \<^verbatim>\<open>word s?\<close>, letters compared without case: the result is the matched
  text and the text after it.
\<close>

definition matchWord :: "string \<Rightarrow> string \<Rightarrow> (string \<times> string) option" where
  "matchWord w s =
     (if toLowerCase (take (length w) s) = w then
        (case drop (length w) s of
           c # t \<Rightarrow>
             if lowerChar c = CHR ''s'' then Some (take (length w + 1) s, t)
             else Some (take (length w) s, c # t)
         | [] \<Rightarrow> Some (take (length w) s, []))
      else None)"

fun firstMatch :: "string list \<Rightarrow> string \<Rightarrow> (string \<times> string) option" where
  "firstMatch [] s = None"
| "firstMatch (w # ws) s =
     (case matchWord w s of Some m \<Rightarrow> Some m | None \<Rightarrow> firstMatch ws s)"

definition unitWords :: "string list" where
  "unitWords = [''year'', ''week'', ''day'', ''hour'', ''minute'', ''second'']"

text \<open>
  A match of the whole pattern at the start of \<open>s\<close>: the digits, the unit text and the
  text after the match. The greedy \<^verbatim>\<open>\d+\<close> and \<^verbatim>\<open>\s*\<close> take the whole run: after fewer
  digits or fewer white space characters the next character is a digit or a white space,
  where no unit word starts, so giving characters back never helps.
\<close>

definition matchAt :: "string \<Rightarrow> (string \<times> string \<times> string) option" where
  "matchAt s =
     (let ds = takeWhile isDigit s
      in if ds = [] then None
         else case firstMatch unitWords (dropWhile isSpace (dropWhile isDigit s)) of
                None \<Rightarrow> None
              | Some (u, rest) \<Rightarrow> Some (ds, u, rest))"

text \<open>\<^verbatim>\<open>parseInt\<close> on a run of decimal digits.\<close>

definition parseInt :: "string \<Rightarrow> jsnum" where
  "parseInt ds = (case digitsVal 10 ds of None \<Rightarrow> NaN | Some n \<Rightarrow> rnd (of_nat n))"

definition addMatch :: "jsnum \<Rightarrow> string \<Rightarrow> string \<Rightarrow> jsnum" where
  "addMatch totalSeconds ds u =
     (let val = parseInt ds; unit = toLowerCase u
      in if truthy (map_of units unit) then fadd totalSeconds (fmul val (the (map_of units unit)))
         else totalSeconds)"

text \<open>
  The \<^verbatim>\<open>while ((match = regex.exec(text)) !== null)\<close> loop with its body as a
  parameter: \<open>s\<close> is the text from \<^verbatim>\<open>lastIndex\<close> on; the search moves on by one
  character where the pattern does not match.
\<close>

function scanMatches :: "('a \<Rightarrow> string \<Rightarrow> string \<Rightarrow> 'a) \<Rightarrow> 'a \<Rightarrow> string \<Rightarrow> 'a" where
  "scanMatches body acc [] = acc"
| "scanMatches body acc (c # cs) =
     (case matchAt (c # cs) of
        Some (ds, u, rest) \<Rightarrow> scanMatches body (body acc ds u) rest
      | None \<Rightarrow> scanMatches body acc cs)"
  by pat_completeness auto
termination
proof (relation "measure (\<lambda>(body, acc, s). length s)")
  fix body :: "'a \<Rightarrow> string \<Rightarrow> string \<Rightarrow> 'a" and acc :: 'a and c :: char
    and cs ds u rest :: string and x2 :: "string \<times> string \<times> string" and y :: "string \<times> string"
  assume a: "matchAt (c # cs) = Some x2" "(ds, y) = x2" "(u, rest) = y"
  define r where "r = dropWhile isSpace (dropWhile isDigit (c # cs))"
  have suffix: "firstMatch ws r = Some m \<Longrightarrow> length (snd m) \<le> length r" for ws m
    by (induction ws) (auto simp: matchWord_def split: option.splits if_splits list.splits
          dest!: arg_cong[where f = length])
  from a have nd: "takeWhile isDigit (c # cs) \<noteq> []"
    and fm: "firstMatch unitWords r = Some (u, rest)"
    by (auto simp: matchAt_def r_def Let_def split: if_splits option.splits)
  from nd have "isDigit c" by (auto split: if_splits)
  then have "length (dropWhile isDigit (c # cs)) \<le> length cs"
    using length_dropWhile_le[of isDigit cs] by simp
  moreover have "length r \<le> length (dropWhile isDigit (c # cs))"
    unfolding r_def by (rule length_dropWhile_le)
  moreover have "length rest \<le> length r" using suffix[OF fm] by simp
  ultimately have "length rest < length (c # cs)" by simp
  then show "((body, body acc ds u, rest), (body, acc, c # cs))
               \<in> measure (\<lambda>(body, acc, s). length s)" by simp
qed auto

declare scanMatches.simps [simp del]

definition parseHumanTime :: "string \<Rightarrow> jsnum" where
  "parseHumanTime text = scanMatches addMatch (Fin 0) text"

text \<open>
  The specification's reading of the duration parser: the matches of the pattern in the
  text, from left to right, each with its digits and its unit word; the seconds of a unit
  word; and the running total of value times unit seconds.
\<close>

definition collectMatch ::
  "(string \<times> string) list \<Rightarrow> string \<Rightarrow> string \<Rightarrow> (string \<times> string) list" where
  "collectMatch ms ds u = ms @ [(ds, u)]"

definition spec_matches :: "string \<Rightarrow> (string \<times> string) list" where
  "spec_matches text = scanMatches collectMatch [] text"



subsection \<open>Adding and subtracting Earth time\<close>

text \<open>\<^verbatim>\<open>if (!date) throw new Error('Invalid cybertronian date format.')\<close>\<close>

definition requireDate :: "error + CyberDate option \<Rightarrow> error + CyberDate" where
  "requireDate r =
     (case r of
        Inl e \<Rightarrow> Inl e
      | Inr None \<Rightarrow> Inl (Error ''Invalid cybertronian date format.'')
      | Inr (Some date) \<Rightarrow> Inr date)"

text \<open>The body of the add handler from the parsed date to the new date.\<close>

definition addEarthTime :: "CyberDate \<Rightarrow> string \<Rightarrow> error + CyberDate" where
  "addEarthTime date earthInput =
     (let earthSecondsToAdd = parseHumanTime earthInput
      in if fle earthSecondsToAdd (Fin 0) then Inl (Error ''Invalid or zero Earth time to add.'')
         else let startSeconds = cyberDateToEarthSeconds date;
                  newSeconds = fadd startSeconds earthSecondsToAdd
              in Inr (earthSecondsToCyberDate newSeconds))"

definition subtractEarthTime :: "CyberDate \<Rightarrow> string \<Rightarrow> error + CyberDate" where
  "subtractEarthTime date earthInput =
     (let earthSecondsToSubtract = parseHumanTime earthInput
      in if fle earthSecondsToSubtract (Fin 0) then
           Inl (Error ''Invalid or zero Earth time to subtract.'')
         else let startSeconds = cyberDateToEarthSeconds date;
                  newSeconds = fsub startSeconds earthSecondsToSubtract
              in if flt newSeconds (Fin 0) then
                   Inl (Error ''Resulting date is before the start of Cybertronian time.'')
                 else Inr (earthSecondsToCyberDate newSeconds))"

text \<open>The submit handlers: the text they leave in the result element.\<close>

definition addHandler :: "string \<Rightarrow> string \<Rightarrow> piece list" where
  "addHandler cyberInput earthInput =
     (case requireDate (parseCybertronianDate cyberInput) of
        Inl (Error message) \<Rightarrow> [Lit ''Error: '', Lit message]
      | Inr date \<Rightarrow>
          (case addEarthTime date earthInput of
             Inl (Error message) \<Rightarrow> [Lit ''Error: '', Lit message]
           | Inr newDate \<Rightarrow>
               Lit (''New Cybertronian Date:'' @ [CHR 0x0A]) # formatCyberDate newDate))"

definition subtractHandler :: "string \<Rightarrow> string \<Rightarrow> piece list" where
  "subtractHandler cyberInput earthInput =
     (case requireDate (parseCybertronianDate cyberInput) of
        Inl (Error message) \<Rightarrow> [Lit ''Error: '', Lit message]
      | Inr date \<Rightarrow>
          (case subtractEarthTime date earthInput of
             Inl (Error message) \<Rightarrow> [Lit ''Error: '', Lit message]
           | Inr newDate \<Rightarrow>
               Lit (''Cybertronian Date after subtracting time:'' @ [CHR 0x0A])
                 # formatCyberDate newDate))"

section \<open>Properties of rounding\<close>

lemma floor_rat_numeral_div [simp]:
  "\<lfloor>numeral a / numeral b :: rat\<rfloor> = numeral a div numeral b"
  using floor_divide_of_int_eq[of "numeral a" "numeral b", where ?'a = rat] by simp

lemma floor_rat_neg_numeral_div [simp]:
  "\<lfloor>- (numeral a / numeral b) :: rat\<rfloor> = - numeral a div numeral b"
  using floor_divide_of_int_eq[of "- numeral a" "numeral b", where ?'a = rat] by simp

lemma powi2_less_cancel:
  assumes "(2::rat) powi a < 2 powi b"
  shows "a < b"
proof (rule ccontr)
  assume "\<not> a < b"
  then have "b \<le> a" by simp
  then have "(2::rat) powi b \<le> 2 powi a" by (rule power_int_increasing) simp
  with assms show False by simp
qed

lemma ilog2_ge1:
  fixes x :: rat
  assumes "1 \<le> x"
  shows "2 powi (ilog2 x) \<le> x \<and> x < 2 powi (ilog2 x + 1)"
proof -
  define n where "n = \<lfloor>x\<rfloor>"
  have n1: "1 \<le> n" using assms by (simp add: n_def le_floor_iff)
  then have npos: "0 < n" by simp
  have bl: "1 \<le> bitlen n" using npos by (auto simp: bitlen_alt_def)
  from bitlen_bounds[OF npos] have lo: "2 ^ nat (bitlen n - 1) \<le> n" and hi: "n < 2 ^ nat (bitlen n)"
    by auto
  have il: "ilog2 x = bitlen n - 1" using assms by (simp add: ilog2_def n_def)
  have p1: "(2::rat) powi (bitlen n - 1) = 2 ^ nat (bitlen n - 1)"
    using bl by (simp add: power_int_def)
  have p2: "(2::rat) powi (bitlen n) = 2 ^ nat (bitlen n)"
    using bl by (simp add: power_int_def)
  have "(of_int (2 ^ nat (bitlen n - 1)) :: rat) \<le> of_int n" using lo by (simp only: of_int_le_iff)
  also have "of_int n \<le> x" by (simp add: n_def)
  finally have a: "(2::rat) ^ nat (bitlen n - 1) \<le> x" by simp
  have "n + 1 \<le> 2 ^ nat (bitlen n)" using hi by simp
  then have "(of_int (n + 1) :: rat) \<le> of_int (2 ^ nat (bitlen n))" by (simp only: of_int_le_iff)
  moreover have "x < of_int (n + 1)" unfolding n_def by linarith
  ultimately have b: "x < (2::rat) ^ nat (bitlen n)" by simp
  show ?thesis using a b by (simp add: il p1 p2)
qed

lemma ilog2_lt1:
  fixes x :: rat
  assumes "0 < x" "x < 1"
  shows "2 powi (ilog2 x) \<le> x \<and> x < 2 powi (ilog2 x + 1)"
proof -
  define m where "m = \<lceil>1 / x\<rceil> - 1"
  have y1: "1 < 1 / x" using assms by simp
  then have "1 < \<lceil>1 / x\<rceil>" by (simp add: less_ceiling_iff)
  then have mpos: "0 < m" by (simp add: m_def)
  have bl: "1 \<le> bitlen m" using mpos by (auto simp: bitlen_alt_def)
  from bitlen_bounds[OF mpos] have lo: "2 ^ nat (bitlen m - 1) \<le> m" and hi: "m < 2 ^ nat (bitlen m)"
    by auto
  have il: "ilog2 x = - bitlen m" using assms by (simp add: ilog2_def m_def)
  have p1: "(2::rat) powi (- bitlen m) = 1 / 2 ^ nat (bitlen m)"
    using bl by (simp add: power_int_def field_simps)
  have p2: "(2::rat) powi (1 - bitlen m) = 1 / 2 ^ nat (bitlen m - 1)"
    using bl by (simp add: power_int_def field_simps nat_diff_distrib)
  have "m + 1 \<le> 2 ^ nat (bitlen m)" using hi by simp
  then have "(of_int (m + 1) :: rat) \<le> of_int (2 ^ nat (bitlen m))" by (simp only: of_int_le_iff)
  moreover have "1 / x \<le> of_int (m + 1)" by (simp add: m_def)
  ultimately have "1 / x \<le> (2::rat) ^ nat (bitlen m)" by simp
  then have a: "1 / 2 ^ nat (bitlen m) \<le> x"
    using assms by (simp add: field_simps)
  have "(of_int (2 ^ nat (bitlen m - 1)) :: rat) \<le> of_int m" using lo by (simp only: of_int_le_iff)
  moreover have "of_int m < 1 / x" unfolding m_def by linarith
  ultimately have "(of_int (2 ^ nat (bitlen m - 1)) :: rat) < 1 / x" by (rule le_less_trans)
  then have "(2::rat) ^ nat (bitlen m - 1) < 1 / x" by simp
  then have b: "x < 1 / 2 ^ nat (bitlen m - 1)"
    using assms by (simp add: field_simps)
  show ?thesis using a b by (simp add: il p1 p2)
qed

lemma ilog2_bounds:
  fixes x :: rat
  assumes "0 < x"
  shows "2 powi (ilog2 x) \<le> x" and "x < 2 powi (ilog2 x + 1)"
  using ilog2_ge1[of x] ilog2_lt1[of x] assms by (cases "1 \<le> x"; simp)+

lemma ilog2_unique:
  fixes x :: rat
  assumes "2 powi e \<le> x" "x < 2 powi (e + 1)"
  shows "ilog2 x = e"
proof -
  have xpos: "0 < x" using assms(1) zero_less_power_int[of "2::rat" e] by linarith
  note b = ilog2_bounds[OF xpos]
  have "(2::rat) powi e < 2 powi (ilog2 x + 1)" using assms(1) b(2) by linarith
  then have 1: "e < ilog2 x + 1" by (rule powi2_less_cancel)
  have "(2::rat) powi (ilog2 x) < 2 powi (e + 1)" using assms(2) b(1) by linarith
  then have 2: "ilog2 x < e + 1" by (rule powi2_less_cancel)
  show ?thesis using 1 2 by simp
qed

lemma rnd_normal:
  assumes "2 powi e \<le> \<bar>x\<bar>" "\<bar>x\<bar> < 2 powi (e + 1)" "- 1022 \<le> e"
    and "round_half_even (x / 2 powi (e - 52)) = n"
    and "\<bar>of_int n * 2 powi (e - 52)\<bar> < (2::rat) ^ 1024"
  shows "rnd x = Fin (of_int n * 2 powi (e - 52))"
proof -
  have e: "ilog2 \<bar>x\<bar> = e" using assms(1,2) by (rule ilog2_unique)
  have "0 < \<bar>x\<bar>" using assms(1) zero_less_power_int[of "2::rat" e] by linarith
  then have nz: "x \<noteq> 0" by simp
  have fe: "fexp x = e - 52" using assms(3) by (simp add: fexp_def e)
  show ?thesis using nz assms(4,5) by (simp add: rnd_def fe Let_def)
qed

lemma round_half_even_of_int [simp]: "round_half_even (of_int k) = k"
  by (simp add: round_half_even_def)

text \<open>Every value with at most 53 significant bits in range is a fixed point of rounding.\<close>

lemma rnd_exact:
  assumes x: "x = of_int m * 2 powi q" and m: "\<bar>m\<bar> < 2 ^ 53" and q: "- 1074 \<le> q"
    and r: "\<bar>x\<bar> < 2 ^ 1024"
  shows "rnd x = Fin x"
proof (cases "x = 0")
  case True
  then show ?thesis by (simp add: rnd_def)
next
  case False
  then have xpos: "0 < \<bar>x\<bar>" by simp
  define e where "e = ilog2 \<bar>x\<bar>"
  have lo: "2 powi e \<le> \<bar>x\<bar>" unfolding e_def using xpos by (rule ilog2_bounds)
  have "\<bar>x\<bar> = of_int \<bar>m\<bar> * 2 powi q" by (simp add: x abs_mult)
  also have "\<dots> < of_int (2 ^ 53) * 2 powi q"
    using m by (intro mult_strict_right_mono) (simp_all only: of_int_less_iff zero_less_power_int zero_less_numeral)
  also have "\<dots> = 2 powi (53 + q)" by (simp add: power_int_add)
  finally have "(2::rat) powi e < 2 powi (53 + q)" using lo by linarith
  then have eq: "e < 53 + q" by (rule powi2_less_cancel)
  define d where "d = q - fexp x"
  have d0: "0 \<le> d" using eq q by (simp add: d_def fexp_def e_def)
  have "x / 2 powi (fexp x) = of_int m * 2 powi d"
    by (simp add: x d_def power_int_diff)
  also have "\<dots> = of_int (m * 2 ^ nat d)" using d0 by (simp add: power_int_def)
  finally have "round_half_even (x / 2 powi (fexp x)) = round_half_even (of_int (m * 2 ^ nat d))"
    by (rule arg_cong)
  then have "round_half_even (x / 2 powi (fexp x)) = m * 2 ^ nat d"
    by (simp only: round_half_even_of_int)
  moreover have "of_int (m * 2 ^ nat d) * 2 powi (fexp x) = x"
  proof -
    have "of_int (m * 2 ^ nat d) * (2::rat) powi (fexp x) = of_int m * (2 powi d * 2 powi (fexp x))"
      using d0 by (simp add: power_int_def)
    also have "\<dots> = of_int m * 2 powi (d + fexp x)" by (simp add: power_int_add)
    also have "\<dots> = x" by (simp add: x d_def)
    finally show ?thesis .
  qed
  ultimately show ?thesis using False r by (simp add: rnd_def Let_def)
qed

lemma rnd_of_int: "\<bar>n\<bar> < 2 ^ 53 \<Longrightarrow> rnd (of_int n) = Fin (of_int n)"
proof -
  assume a: "\<bar>n\<bar> < 2 ^ 53"
  have "\<bar>of_int n :: rat\<bar> = of_int \<bar>n\<bar>" by simp
  also have "\<dots> < of_int (2 ^ 53)" using a by (simp only: of_int_less_iff)
  also have "\<dots> < 2 ^ 1024" by simp
  finally show ?thesis using rnd_exact[of "of_int n" n 0] a by simp
qed

lemma rnd_numeral: "(numeral k :: int) < 2 ^ 53 \<Longrightarrow> rnd (numeral k) = Fin (numeral k)"
  using rnd_of_int[of "numeral k"] by simp


lemma rnd_zero [simp]: "rnd 0 = Fin 0"
  by (simp add: rnd_def)

lemma rnd_one [simp]: "rnd 1 = Fin 1"
  using rnd_of_int[of 1] by simp

lemma round_half_even_floor_ceiling: "\<lfloor>r\<rfloor> \<le> round_half_even r \<and> round_half_even r \<le> \<lceil>r\<rceil>"
proof (cases "r = of_int \<lfloor>r\<rfloor>")
  case True
  then have "round_half_even r = \<lfloor>r\<rfloor>"
    using round_half_even_of_int[of "\<lfloor>r\<rfloor>"] by simp
  then show ?thesis by (simp add: floor_le_ceiling)
next
  case False
  then have "\<lceil>r\<rceil> = \<lfloor>r\<rfloor> + 1" by (simp add: ceiling_altdef)
  then show ?thesis by (simp add: round_half_even_def Let_def)
qed

lemma round_half_even_ge:
  assumes "of_int k \<le> r"
  shows "k \<le> round_half_even r"
proof -
  have "k \<le> \<lfloor>r\<rfloor>" using assms by (simp add: le_floor_iff)
  then show ?thesis using round_half_even_floor_ceiling[of r] by linarith
qed

lemma round_half_even_le:
  assumes "r \<le> of_int k"
  shows "round_half_even r \<le> k"
proof -
  have "\<lceil>r\<rceil> \<le> k" using assms by (simp add: ceiling_le_iff)
  then show ?thesis using round_half_even_floor_ceiling[of r] by linarith
qed

lemma round_half_even_minus: "round_half_even (- r) = - round_half_even r"
proof (cases "r = of_int \<lfloor>r\<rfloor>")
  case True
  then have "round_half_even r = \<lfloor>r\<rfloor>"
    using round_half_even_of_int[of "\<lfloor>r\<rfloor>"] by simp
  moreover have "- r = of_int (- \<lfloor>r\<rfloor>)" using True by simp
  then have "round_half_even (- r) = - \<lfloor>r\<rfloor>"
    by (simp only: round_half_even_of_int)
  ultimately show ?thesis by simp
next
  case False
  then have c: "\<lceil>r\<rceil> = \<lfloor>r\<rfloor> + 1" by (simp add: ceiling_altdef)
  have f: "\<lfloor>- r\<rfloor> = - \<lfloor>r\<rfloor> - 1" using c by (simp add: ceiling_def)
  have lt: "of_int \<lfloor>r\<rfloor> < r" using False of_int_floor_le[of r] by linarith
  show ?thesis
    unfolding round_half_even_def Let_def f
    by (auto simp: algebra_simps)
qed

lemma fexp_minus [simp]: "fexp (- x) = fexp x"
  by (simp add: fexp_def)

lemma rnd_minus: "rnd (- x) = fneg (rnd x)"
  by (simp add: rnd_def Let_def round_half_even_minus)

lemma fexp_ge: "- 1074 \<le> fexp x"
  by (simp add: fexp_def)

lemma rnd_idem:
  assumes "rnd x = Fin y"
  shows "rnd y = Fin y"
proof (cases "x = 0")
  case True
  with assms show ?thesis by (simp add: rnd_def)
next
  case False
  define q where "q = fexp x"
  define n where "n = round_half_even (x / 2 powi q)"
  from assms False have y: "y = of_int n * 2 powi q" and r: "\<bar>y\<bar> < 2 ^ 1024"
    by (auto simp: rnd_def Let_def q_def n_def split: if_splits)
  have xpos: "0 < \<bar>x\<bar>" using False by simp
  have "\<bar>x\<bar> < 2 powi (ilog2 \<bar>x\<bar> + 1)" using xpos by (rule ilog2_bounds)
  also have "\<dots> \<le> 2 powi (q + 53)"
    by (rule power_int_increasing) (simp_all add: q_def fexp_def)
  finally have "\<bar>x\<bar> < 2 powi q * 2 powi 53" by (simp add: power_int_add)
  then have b: "\<bar>x / 2 powi q\<bar> < 2 ^ 53"
    by (simp add: abs_mult field_simps)
  from b have b1: "x / 2 powi q < 2 ^ 53" and b2: "- (2 ^ 53) < x / 2 powi q"
    unfolding abs_less_iff by linarith+
  have "x / 2 powi q \<le> of_int (2 ^ 53)" using b1 by simp
  then have u: "n \<le> 2 ^ 53" unfolding n_def by (rule round_half_even_le)
  have "of_int (- (2 ^ 53)) \<le> x / 2 powi q" using b2 by simp
  then have l: "- (2 ^ 53) \<le> n" unfolding n_def by (rule round_half_even_ge)
  have q74: "- 1074 \<le> q" unfolding q_def by (rule fexp_ge)
  consider "\<bar>n\<bar> < 2 ^ 53" | "n = 2 ^ 53" | "n = - (2 ^ 53)" using u l by linarith
  then show ?thesis
  proof cases
    case 1
    show ?thesis using rnd_exact[OF y 1 q74 r] .
  next
    case 2
    have "y = of_int (2 ^ 52) * 2 powi (q + 1)"
      by (simp add: y 2 power_int_add)
    then show ?thesis using rnd_exact[of y "2 ^ 52" "q + 1"] q74 r by simp
  next
    case 3
    have "y = of_int (- (2 ^ 52)) * 2 powi (q + 1)"
      by (simp add: y 3 power_int_add)
    then show ?thesis using rnd_exact[of y "- (2 ^ 52)" "q + 1"] q74 r by simp
  qed
qed

text \<open>A value of at least \<open>2^1024\<close> rounds to infinity.\<close>

lemma rnd_overflow:
  assumes "2 ^ 1024 \<le> x"
  shows "rnd x = PInf"
proof -
  have xpos: "0 < x" using assms by (rule less_le_trans[rotated]) simp
  define e where "e = ilog2 \<bar>x\<bar>"
  have b: "2 powi e \<le> x" "x < 2 powi (e + 1)"
    using ilog2_bounds[of "\<bar>x\<bar>"] xpos by (simp_all add: e_def)
  have "(2::rat) powi 1024 < 2 powi (e + 1)" using assms b(2) by simp
  then have e1024: "1024 \<le> e" using powi2_less_cancel[of 1024 "e + 1"] by simp
  then have fe: "fexp x = e - 52" by (simp add: fexp_def e_def)
  define n where "n = round_half_even (x / 2 powi (e - 52))"
  have "of_int (2 ^ 52) \<le> x / 2 powi (e - 52)"
  proof -
    have "(2::rat) powi e = 2 ^ 52 * 2 powi (e - 52)"
      using power_int_add[of "2::rat" 52 "e - 52"] by simp
    then show ?thesis using b(1) by (simp add: le_divide_eq)
  qed
  then have "2 ^ 52 \<le> n" unfolding n_def by (rule round_half_even_ge)
  then have "(2::rat) ^ 52 \<le> of_int n" by (metis of_int_le_iff of_int_numeral of_int_power)
  then have "2 ^ 52 * 2 powi (e - 52) \<le> of_int n * (2::rat) powi (e - 52)"
    by (intro mult_right_mono) simp_all
  moreover have "(2::rat) ^ 52 * 2 powi (e - 52) = 2 powi e"
    using power_int_add[of "2::rat" 52 "e - 52"] by simp
  moreover have "(2::rat) ^ 1024 \<le> 2 powi e"
    using e1024 power_int_increasing[of 1024 e "2::rat"] by simp
  ultimately have big: "(2::rat) ^ 1024 \<le> of_int n * 2 powi (e - 52)" by linarith
  then have "(2::rat) ^ 1024 \<le> \<bar>of_int n * 2 powi (e - 52)\<bar>" by linarith
  then show ?thesis using xpos by (simp add: rnd_def Let_def fe n_def)
qed

section \<open>Evaluation of the arithmetic on concrete values\<close>

lemma rnd_v_1: "rnd (7305 / 2) = Fin (7305 / 2)"
  using rnd_normal [of 11 "7305 / 2" 8031932440903680]
  by (simp add: round_half_even_def Let_def)

lemma rnd_v_2: "rnd (1461 / 400) = Fin (1028087352435671 / 281474976710656)"
  using rnd_normal [of 1 "1461 / 400" 8224698819485368]
  by (simp add: round_half_even_def Let_def)

lemma rnd_v_3: "rnd (1028087352435671 / 2814749767106560) = Fin (3289879527794147 / 9007199254740992)"
  using rnd_normal [of "- 2" "1028087352435671 / 2814749767106560" 6579759055588294]
  by (simp add: round_half_even_def Let_def)

lemma rnd_v_4: "rnd (1028087352435671 / 281474976710656000) = Fin (8422091591153017 / 2305843009213693952)"
  using rnd_normal [of "- 9" "1028087352435671 / 281474976710656000" 8422091591153017]
  by (simp add: round_half_even_def Let_def)

lemma rnd_v_5: "rnd (463137 / 100) = Fin (5092245167532933 / 1099511627776)"
  using rnd_normal [of 12 "463137 / 100" 5092245167532933]
  by (simp add: round_half_even_def Let_def)

lemma rnd_v_6: "rnd (1697415055844311 / 1338655406817280) = Fin (5710564327505789 / 4503599627370496)"
  using rnd_normal [of 0 "1697415055844311 / 1338655406817280" 5710564327505789]
  by (simp add: round_half_even_def Let_def)

lemma rnd_v_7: "rnd (1076278947081093 / 1099511627776) = Fin (1076278947081093 / 1099511627776)"
  using rnd_normal [of 9 "1076278947081093 / 1099511627776" 8610231576648744]
  by (simp add: round_half_even_def Let_def)

lemma rnd_v_8: "rnd (275527410452759808 / 1028087352435671) = Fin (268)"
  using rnd_normal [of 8 "275527410452759808 / 1028087352435671" 4714705859903488]
  by (simp add: round_half_even_def Let_def)

lemma rnd_v_9: "rnd (68881852613189957 / 70368744177664) = Fin (8610231576648745 / 8796093022208)"
  using rnd_normal [of 9 "68881852613189957 / 70368744177664" 8610231576648745]
  by (simp add: round_half_even_def Let_def)

lemma rnd_v_10: "rnd (- (1 / 8796093022208)) = Fin (- (1 / 8796093022208))"
  using rnd_normal [of "- 43" "- (1 / 8796093022208)" "- 4503599627370496"]
  by (simp add: round_half_even_def Let_def)

lemma rnd_v_11: "rnd (- (1024 / 3289879527794147)) = Fin (- (1541272973090519 / 4951760157141521099596496896))"
  using rnd_normal [of "- 42" "- (1024 / 3289879527794147)" "- 6165091892362076"]
  by (simp add: round_half_even_def Let_def)

lemma rnd_v_12: "rnd (- (3289879527794147 / 9007199254740992)) = Fin (- (3289879527794147 / 9007199254740992))"
  using rnd_normal [of "- 2" "- (3289879527794147 / 9007199254740992)" "- 6579759055588294"]
  by (simp add: round_half_even_def Let_def)

lemma rnd_v_13: "rnd (3289879527793123 / 9007199254740992) = Fin (3289879527793123 / 9007199254740992)"
  using rnd_normal [of "- 2" "3289879527793123 / 9007199254740992" 6579759055586246]
  by (simp add: round_half_even_def Let_def)

lemma rnd_v_14: "rnd (842209159115039488 / 8422091591153017) = Fin (7036874417764209 / 70368744177664)"
  using rnd_normal [of 6 "842209159115039488 / 8422091591153017" 7036874417764209]
  by (simp add: round_half_even_def Let_def)

lemma rnd_v_15: "rnd (27759 / 3200) = Fin (4883414924069437 / 562949953421312)"
  using rnd_normal [of 3 "27759 / 3200" 4883414924069437]
  by (simp add: round_half_even_def Let_def)

lemma rnd_v_16: "rnd (4883414924069437 / 2056174704871342080) = Fin (5476377146882523 / 2305843009213693952)"
  using rnd_normal [of "- 9" "4883414924069437 / 2056174704871342080" 5476377146882523]
  by (simp add: round_half_even_def Let_def)

lemma rnd_v_17: "rnd (4883414924069437 / 562949953421312) = Fin (4883414924069437 / 562949953421312)"
  using rnd_normal [of 3 "4883414924069437 / 562949953421312" 4883414924069437]
  by (simp add: round_half_even_def Let_def)

lemma rnd_v_18: "rnd (4883414924069437 / 2056174704871342) = Fin (19 / 8)"
  using rnd_normal [of 1 "4883414924069437 / 2056174704871342" 5348024557502464]
  by (simp add: round_half_even_def Let_def)

lemma rnd_v_19: "rnd (1028087352435671 / 140737488355328) = Fin (1028087352435671 / 140737488355328)"
  using rnd_normal [of 2 "1028087352435671 / 140737488355328" 8224698819485368]
  by (simp add: round_half_even_def Let_def)

lemma rnd_v_20: "rnd (771065514326753 / 562949953421312) = Fin (771065514326753 / 562949953421312)"
  using rnd_normal [of 0 "771065514326753 / 562949953421312" 6168524114614024]
  by (simp add: round_half_even_def Let_def)

lemma rnd_v_21: "rnd (12337048229228048 / 3289879527794147) = Fin (4222124650659839 / 1125899906842624)"
  using rnd_normal [of 1 "12337048229228048 / 3289879527794147" 8444249301319678]
  by (simp add: round_half_even_def Let_def)

lemma rnd_v_22: "rnd (9869638583382441 / 9007199254740992) = Fin (1233704822922805 / 1125899906842624)"
  using rnd_normal [of 0 "9869638583382441 / 9007199254740992" 4934819291691220]
  by (simp add: round_half_even_def Let_def)

lemma rnd_v_23: "rnd (308426205730701 / 1125899906842624) = Fin (308426205730701 / 1125899906842624)"
  using rnd_normal [of "- 2" "308426205730701 / 1125899906842624" 4934819291691216]
  by (simp add: round_half_even_def Let_def)

lemma rnd_v_24: "rnd (631656869336475648 / 8422091591153017) = Fin (5277655813324795 / 70368744177664)"
  using rnd_normal [of 6 "631656869336475648 / 8422091591153017" 5277655813324795]
  by (simp add: round_half_even_def Let_def)

lemma rnd_v_25: "rnd (9458403642408173 / 1125899906842624) = Fin (2364600910602043 / 281474976710656)"
  using rnd_normal [of 3 "9458403642408173 / 1125899906842624" 4729201821204086]
  by (simp add: round_half_even_def Let_def)

lemma rnd_v_26: "rnd (311617388872661629 / 1152921504606846976) = Fin (2434510850567669 / 9007199254740992)"
  using rnd_normal [of "- 2" "311617388872661629 / 1152921504606846976" 4869021701135338]
  by (simp add: round_half_even_def Let_def)

lemma rnd_v_27: "rnd (78101739989833045 / 9007199254740992) = Fin (4881358749364565 / 562949953421312)"
  using rnd_normal [of 3 "78101739989833045 / 9007199254740992" 4881358749364565]
  by (simp add: round_half_even_def Let_def)

lemma rnd_v_28: "rnd (3294917155821081375 / 4398046511104) = Fin (3217692534981525 / 4294967296)"
  using rnd_normal [of 19 "3294917155821081375 / 4398046511104" 6435385069963050]
  by (simp add: round_half_even_def Let_def)

lemma rnd_v_29: "rnd (5684911824028286475 / 18014398509481984) = Fin (346979481447039 / 1099511627776)"
  using rnd_normal [of 8 "5684911824028286475 / 18014398509481984" 5551671703152624]
  by (simp add: round_half_even_def Let_def)

lemma rnd_v_30: "rnd (1355388599403 / 4294967296) = Fin (1355388599403 / 4294967296)"
  using rnd_normal [of 8 "1355388599403 / 4294967296" 5551671703154688]
  by (simp add: round_half_even_def Let_def)

lemma rnd_v_31: "rnd (7196611467049697 / 281474976710656) = Fin (7196611467049697 / 281474976710656)"
  using rnd_normal [of 4 "7196611467049697 / 281474976710656" 7196611467049697]
  by (simp add: round_half_even_def Let_def)

lemma rnd_v_32: "rnd (4857712740258545475 / 2199023255552) = Fin (2209032)"
  using rnd_normal [of 21 "4857712740258545475 / 2199023255552" 4743860097908736]
  by (simp add: round_half_even_def Let_def)

lemma rnd_v_33: "rnd (1028087352435671 / 281474976710656) = Fin (1028087352435671 / 281474976710656)"
  using rnd_normal [of 1 "1028087352435671 / 281474976710656" 8224698819485368]
  by (simp add: round_half_even_def Let_def)

lemma rnd_v_34: "rnd (693958962894077925 / 2199023255552) = Fin (315576)"
  using rnd_normal [of 18 "693958962894077925 / 2199023255552" 5421554397609984]
  by (simp add: round_half_even_def Let_def)

lemma rnd_v_35: "rnd (401976) = Fin (401976)"
  using rnd_normal [of 18 "401976" 6905895095107584]
  by (simp add: round_half_even_def Let_def)

lemma rnd_v_36: "rnd (1861 / 400) = Fin (1309562329146327 / 281474976710656)"
  using rnd_normal [of 2 "1861 / 400" 5238249316585308]
  by (simp add: round_half_even_def Let_def)

lemma rnd_v_37: "rnd (436520776382109 / 342695784145223680) = Fin (5874296837983141 / 4611686018427387904)"
  using rnd_normal [of "- 10" "436520776382109 / 342695784145223680" 5874296837983141]
  by (simp add: round_half_even_def Let_def)

lemma rnd_v_38: "rnd (1309562329146327 / 281474976710656) = Fin (1309562329146327 / 281474976710656)"
  using rnd_normal [of 2 "1309562329146327 / 281474976710656" 5238249316585308]
  by (simp add: round_half_even_def Let_def)

lemma rnd_v_39: "rnd (1309562329146327 / 1028087352435671) = Fin (5736618005842911 / 4503599627370496)"
  using rnd_normal [of 0 "1309562329146327 / 1028087352435671" 5736618005842911]
  by (simp add: round_half_even_def Let_def)

lemma rnd_v_40: "rnd (1) = Fin (1)"
  using rnd_normal [of 0 "1" 4503599627370496]
  by (simp add: round_half_even_def Let_def)

lemma rnd_v_41: "rnd (9007199254740992 / 3289879527794147) = Fin (1541272973090519 / 562949953421312)"
  using rnd_normal [of 1 "9007199254740992 / 3289879527794147" 6165091892362076]
  by (simp add: round_half_even_def Let_def)

lemma rnd_v_42: "rnd (3289879527794147 / 4503599627370496) = Fin (3289879527794147 / 4503599627370496)"
  using rnd_normal [of "- 1" "3289879527794147 / 4503599627370496" 6579759055588294]
  by (simp add: round_half_even_def Let_def)

lemma rnd_v_43: "rnd (1213720099576349 / 4503599627370496) = Fin (1213720099576349 / 4503599627370496)"
  using rnd_normal [of "- 2" "1213720099576349 / 4503599627370496" 4854880398305396]
  by (simp add: round_half_even_def Let_def)

lemma rnd_v_44: "rnd (621424690983090688 / 8422091591153017) = Fin (5192163328098687 / 70368744177664)"
  using rnd_normal [of 6 "621424690983090688 / 8422091591153017" 5192163328098687]
  by (simp add: round_half_even_def Let_def)

lemma rnd_v_45: "rnd (229176) = Fin (229176)"
  using rnd_normal [of 17 "229176" 7874427400224768]
  by (simp add: round_half_even_def Let_def)

lemma rnd_v_46: "rnd (1061 / 400) = Fin (746612375725015 / 281474976710656)"
  using rnd_normal [of 1 "1061 / 400" 5972899005800120]
  by (simp add: round_half_even_def Let_def)

lemma rnd_v_47: "rnd (149322475145003 / 205617470487134208) = Fin (6698150397743269 / 9223372036854775808)"
  using rnd_normal [of "- 11" "149322475145003 / 205617470487134208" 6698150397743269]
  by (simp add: round_half_even_def Let_def)

lemma rnd_v_48: "rnd (746612375725015 / 281474976710656) = Fin (746612375725015 / 281474976710656)"
  using rnd_normal [of 1 "746612375725015 / 281474976710656" 5972899005800120]
  by (simp add: round_half_even_def Let_def)

lemma rnd_v_49: "rnd (746612375725015 / 1028087352435671) = Fin (3270581248898081 / 4503599627370496)"
  using rnd_normal [of "- 1" "746612375725015 / 1028087352435671" 6541162497796162]
  by (simp add: round_half_even_def Let_def)

lemma rnd_v_50: "rnd (23891596023200480 / 3289879527794147) = Fin (8176453122245203 / 1125899906842624)"
  using rnd_normal [of 2 "23891596023200480 / 3289879527794147" 8176453122245203]
  by (simp add: round_half_even_def Let_def)

lemma rnd_v_51: "rnd (23029156694559029 / 9007199254740992) = Fin (5757289173639757 / 2251799813685248)"
  using rnd_normal [of 1 "23029156694559029 / 9007199254740992" 5757289173639757]
  by (simp add: round_half_even_def Let_def)

lemma rnd_v_52: "rnd (215609832160363 / 2251799813685248) = Fin (215609832160363 / 2251799813685248)"
  using rnd_normal [of "- 4" "215609832160363 / 2251799813685248" 6899514629131616]
  by (simp add: round_half_even_def Let_def)

lemma rnd_v_53: "rnd (220784468132211712 / 8422091591153017) = Fin (1844711089667719 / 70368744177664)"
  using rnd_normal [of 4 "220784468132211712 / 8422091591153017" 7378844358670876]
  by (simp add: round_half_even_def Let_def)

lemma rnd_v_54: "rnd (1 / 864) = Fin (667199944795629 / 576460752303423488)"
  using rnd_normal [of "- 10" "1 / 864" 5337599558365032]
  by (simp add: round_half_even_def Let_def)

lemma rnd_v_55: "rnd (222399981598543 / 701840965929418096640) = Fin (2992855275984007 / 9444732965739290427392)"
  using rnd_normal [of "- 22" "222399981598543 / 701840965929418096640" 5985710551968014]
  by (simp add: round_half_even_def Let_def)

lemma rnd_v_56: "rnd (667199944795629 / 576460752303423488) = Fin (667199944795629 / 576460752303423488)"
  using rnd_normal [of "- 10" "667199944795629 / 576460752303423488" 5337599558365032]
  by (simp add: round_half_even_def Let_def)

lemma rnd_v_57: "rnd (35115786568191 / 110816994620434432) = Fin (730677557613283 / 2305843009213693952)"
  using rnd_normal [of "- 12" "35115786568191 / 110816994620434432" 5845420460906264]
  by (simp add: round_half_even_def Let_def)

lemma rnd_v_58: "rnd (667199944795629 / 210552289778825408) = Fin (3653387788066415 / 1152921504606846976)"
  using rnd_normal [of "- 9" "667199944795629 / 210552289778825408" 7306775576132830]
  by (simp add: round_half_even_def Let_def)

lemma rnd_v_59: "rnd (2668799779182516 / 8422091591153017) = Fin (5708418418853773 / 18014398509481984)"
  using rnd_normal [of "- 2" "2668799779182516 / 8422091591153017" 5708418418853773]
  by (simp add: round_half_even_def Let_def)

lemma rnd_v_60: "rnd (1461 / 400000) = Fin (8422091591153017 / 2305843009213693952)"
  using rnd_normal [of "- 9" "1461 / 400000" 8422091591153017]
  by (simp add: round_half_even_def Let_def)

lemmas rnd_values = rnd_v_1 rnd_v_2 rnd_v_3 rnd_v_4 rnd_v_5 rnd_v_6 rnd_v_7 rnd_v_8 rnd_v_9 rnd_v_10 rnd_v_11 rnd_v_12 rnd_v_13 rnd_v_14 rnd_v_15 rnd_v_16 rnd_v_17 rnd_v_18 rnd_v_19 rnd_v_20 rnd_v_21 rnd_v_22 rnd_v_23 rnd_v_24 rnd_v_25 rnd_v_26 rnd_v_27 rnd_v_28 rnd_v_29 rnd_v_30 rnd_v_31 rnd_v_32 rnd_v_33 rnd_v_34 rnd_v_35 rnd_v_36 rnd_v_37 rnd_v_38 rnd_v_39 rnd_v_40 rnd_v_41 rnd_v_42 rnd_v_43 rnd_v_44 rnd_v_45 rnd_v_46 rnd_v_47 rnd_v_48 rnd_v_49 rnd_v_50 rnd_v_51 rnd_v_52 rnd_v_53 rnd_v_54 rnd_v_55 rnd_v_56 rnd_v_57 rnd_v_58 rnd_v_59 rnd_v_60

lemma rnd_1e308: "rnd 100000000000000000000000000000000000000000000000000000000000000000000000000000000000000000000000000000000000000000000000000000000000000000000000000000000000000000000000000000000000000000000000000000000000000000000000000000000000000000000000000000000000000000000000000000000000000000000000000000000000000000000 = Fin 100000000000000001097906362944045541740492309677311846336810682903157585404911491537163328978494688899061249669721172515611590283743140088328307009198146046031271664502933027185697489699588559043338384466165001178426897626212945177628091195786707458122783970171784415105291802893207873272974885715430223118336"
proof -
  have p1: "(2::rat) powi 1023 \<le> \<bar>10 ^ 308\<bar>" by simp
  have p2: "\<bar>10 ^ 308\<bar> < (2::rat) powi (1023 + 1)" by simp
  have p3: "round_half_even (10 ^ 308 / 2 powi (1023 - 52)) = 5010420900022432"
    by (simp add: round_half_even_def Let_def)
  have p4: "\<bar>of_int 5010420900022432 * 2 powi (1023 - 52)\<bar> < (2::rat) ^ 1024" by simp
  have p5: "(of_int 5010420900022432 * 2 powi (1023 - 52) :: rat) = 100000000000000001097906362944045541740492309677311846336810682903157585404911491537163328978494688899061249669721172515611590283743140088328307009198146046031271664502933027185697489699588559043338384466165001178426897626212945177628091195786707458122783970171784415105291802893207873272974885715430223118336" by simp
  have "rnd (10 ^ 308) = Fin (of_int 5010420900022432 * 2 powi (1023 - 52))"
    using p1 p2 _ p3 p4 by (rule rnd_normal) simp
  then have "rnd (10 ^ 308) = Fin 100000000000000001097906362944045541740492309677311846336810682903157585404911491537163328978494688899061249669721172515611590283743140088328307009198146046031271664502933027185697489699588559043338384466165001178426897626212945177628091195786707458122783970171784415105291802893207873272974885715430223118336" unfolding p5 .
  then show ?thesis by simp
qed

lemma SOLAR_CYCLE_DAYS_value: "SOLAR_CYCLE_DAYS = Fin (7305 / 2)"
  by (simp add: SOLAR_CYCLE_DAYS_def SOLAR_CYCLE_YEARS_def EARTH_YEAR_IN_DAYS_def rnd_values)

lemma CYCLE_value: "CYCLE = Fin (1028087352435671 / 281474976710656)"
  by (simp add: CYCLE_def SOLAR_CYCLE_DAYS_value rnd_values)

lemma chordDays_value: "fdiv CYCLE (Fin 10) = Fin (3289879527794147 / 9007199254740992)"
  by (simp add: CYCLE_value rnd_values)

lemma klikDays_value: "fdiv CYCLE (Fin 1000) = Fin (8422091591153017 / 2305843009213693952)"
  by (simp add: CYCLE_value rnd_values)

lemmas unit_values = SOLAR_CYCLE_DAYS_value CYCLE_value chordDays_value klikDays_value

lemmas fromSeconds_eval = earthSecondsToCyberDate_def Let_def unit_values fsub_def rnd_values

lemmas toSeconds_eval = cyberDateToEarthSeconds_def Let_def unit_values rnd_values

lemma fromSeconds_400150368:
  "earthSecondsToCyberDate (Fin 400150368) =
     \<lparr>klik = Some (Fin 99), chord = Some (Fin (- 1)), cycle = Some (Fin 268),
        solarCycle = Some (Fin 1)\<rparr>"
  by (simp add: fromSeconds_eval)

lemma fromSeconds_749493:
  "earthSecondsToCyberDate (Fin 749493) =
     \<lparr>klik = Some (Fin 74), chord = Some (Fin 3), cycle = Some (Fin 2),
        solarCycle = Some (Fin 0)\<rparr>"
  by (simp add: fromSeconds_eval)

lemma toSeconds_74_3_2_0:
  "cyberDateToEarthSeconds \<lparr>klik = Some (Fin 74), chord = Some (Fin 3), cycle = Some (Fin 2),
        solarCycle = Some (Fin 0)\<rparr> = Fin (3217692534981525 / 4294967296)"
  by (simp add: toSeconds_eval)

lemma fromSeconds_0:
  "earthSecondsToCyberDate (Fin 0) =
     \<lparr>klik = Some (Fin 0), chord = Some (Fin 0), cycle = Some (Fin 0), solarCycle = Some (Fin 0)\<rparr>"
  by (simp add: fromSeconds_eval)

lemma fromSeconds_100:
  "earthSecondsToCyberDate (Fin 100) =
     \<lparr>klik = Some (Fin 0), chord = Some (Fin 0), cycle = Some (Fin 0), solarCycle = Some (Fin 0)\<rparr>"
  by (simp add: fromSeconds_eval)

lemma toSeconds_origin:
  "cyberDateToEarthSeconds
     \<lparr>klik = Some (Fin 0), chord = Some (Fin 0), cycle = Some (Fin 0), solarCycle = Some (Fin 0)\<rparr>
   = Fin 0"
  by (simp add: toSeconds_eval)

lemma toSeconds_cycle_7:
  "cyberDateToEarthSeconds \<lparr>klik = None, chord = None, cycle = Some (Fin 7), solarCycle = None\<rparr>
   = Fin 2209032"
  by (simp add: toSeconds_eval)

lemma toSeconds_cycle_1:
  "cyberDateToEarthSeconds \<lparr>klik = None, chord = None, cycle = Some (Fin 1), solarCycle = None\<rparr>
   = Fin 315576"
  by (simp add: toSeconds_eval)

lemma fromSeconds_401976:
  "earthSecondsToCyberDate (Fin 401976) =
     \<lparr>klik = Some (Fin 73), chord = Some (Fin 2), cycle = Some (Fin 1), solarCycle = Some (Fin 0)\<rparr>"
  by (simp add: fromSeconds_eval)

lemma fromSeconds_229176:
  "earthSecondsToCyberDate (Fin 229176) =
     \<lparr>klik = Some (Fin 26), chord = Some (Fin 7), cycle = Some (Fin 0), solarCycle = Some (Fin 0)\<rparr>"
  by (simp add: fromSeconds_eval)

section \<open>Properties of the arithmetic\<close>

lemma isDouble_rnd: "isDouble (rnd x)"
  by (cases "rnd x") (auto simp: isDouble_def dest: rnd_idem)

lemma isDouble_infMul: "isDouble (infMul p b)"
  by (simp add: isDouble_def infMul_def)


lemma isDouble_fmul: "isDouble (fmul x y)"
  by (cases x; cases y) (simp_all add: isDouble_rnd isDouble_infMul, simp_all add: isDouble_def)


lemma fadd_zero_left: "isDouble x \<Longrightarrow> fadd (Fin 0) x = x"
  by (cases x) (simp_all add: isDouble_def)


lemma fneg_fneg [simp]: "fneg (fneg x) = x"
  by (cases x) simp_all

lemma fneg_fadd: "fneg (fadd x y) = fadd (fneg x) (fneg y)"
  by (cases x; cases y) (simp_all add: rnd_minus [symmetric])

lemma fabs_fneg [simp]: "fabs (fneg x) = fabs x"
  by (cases x) simp_all

lemma fabs_fsub_commute: "fabs (fsub x y) = fabs (fsub y x)"
proof -
  have "fsub y x = fneg (fsub x y)"
    by (simp add: fsub_def fneg_fadd) (cases x; cases y; simp add: add.commute)
  then show ?thesis by simp
qed

lemma fsub_self: "isFinite x \<Longrightarrow> fsub x x = Fin 0"
  by (cases x) (simp_all add: isFinite_def fsub_def)

section \<open>Properties of the parser\<close>

lemmas text_eval =
  flattenNumbers_def parsedPartsOf_def arcPartsOf_def trim_def isSpace_def toLowerCase_def
  lowerChar_def upperLetters_def lowerLetters_def splitArc.simps matchArc_def splitSpaces.simps Number_def nonDecimal_def
  unsignedNumber_def unsignedDecimal_def isDigit_def digitsVal_def digitOf_def
  exponentPart_def rnd_numeral isNaN_def Let_def

lemma splitArc_nonempty: "splitArc acc s \<noteq> []"
  by (induction acc s rule: splitArc.induct) (auto simp: splitArc.simps split: option.splits)

lemma arcParts_present: "\<not> length (arcPartsOf input) < 1"
  using splitArc_nonempty[of "[]" "toLowerCase (trim input)"]
  by (cases "arcPartsOf input") (simp_all add: arcPartsOf_def)

lemma parse_of_numbers:
  assumes "flattenNumbers input = Inr ns"
  shows "parseCybertronianDate input = Inr (assignFields ns)"
  using assms arcParts_present[of input] by (simp add: parseCybertronianDate_def)

lemma pushPart_eq:
  "pushPart numbers arr =
     (if \<exists>n \<in> set arr. isNaN n then Inl (Error ''Invalid number in date'')
      else Inr (numbers @ arr))"
  by (induction arr arbitrary: numbers) auto

lemma pushParts_eq:
  "pushParts numbers parsedParts =
     (if \<exists>n \<in> set (concat parsedParts). isNaN n then Inl (Error ''Invalid number in date'')
      else Inr (numbers @ concat parsedParts))"
  by (induction parsedParts arbitrary: numbers) (auto simp: pushPart_eq)

lemma flattenNumbers_eq:
  "flattenNumbers input =
     (if \<exists>n \<in> set (concat (parsedPartsOf input)). isNaN n
      then Inl (Error ''Invalid number in date'')
      else Inr (concat (parsedPartsOf input)))"
  by (simp add: flattenNumbers_def pushParts_eq)

text \<open>
  The parser fails exactly when a token is not a number or the count of tokens is none of
  1, 2, 3, 4.
\<close>

lemma parseFails_iff:
  "parseFails (parseCybertronianDate input) \<longleftrightarrow>
     (\<exists>n \<in> set (concat (parsedPartsOf input)). isNaN n)
     \<or> length (concat (parsedPartsOf input)) \<notin> {1, 2, 3, 4}"
proof (cases "\<exists>n \<in> set (concat (parsedPartsOf input)). isNaN n")
  case True
  then have "flattenNumbers input = Inl (Error ''Invalid number in date'')"
    by (simp add: flattenNumbers_eq)
  then show ?thesis
    using True arcParts_present[of input] by (simp add: parseCybertronianDate_def parseFails_def)
next
  case False
  then have "flattenNumbers input = Inr (concat (parsedPartsOf input))"
    by (simp add: flattenNumbers_eq)
  then have "parseCybertronianDate input = Inr (assignFields (concat (parsedPartsOf input)))"
    by (rule parse_of_numbers)
  then show ?thesis using False by (auto simp: parseFails_def assignFields_def)
qed

lemma numbers_5_arc_3: "flattenNumbers ''5 arc 3'' = Inr [Fin 5, Fin 3]"
  by (simp add: text_eval)

lemma numbers_7: "flattenNumbers ''7'' = Inr [Fin 7]"
  by (simp add: text_eval)

lemma numbers_1_2_arc_3: "flattenNumbers ''1 2 arc 3'' = Inr [Fin 1, Fin 2, Fin 3]"
  by (simp add: text_eval)

lemma numbers_full:
  "flattenNumbers ''54 arc 4 593 arc 129'' = Inr [Fin 54, Fin 4, Fin 593, Fin 129]"
  by (simp add: text_eval)

lemma numbers_empty: "flattenNumbers [] = Inr [Fin 0]"
  by (simp add: text_eval)

lemma numbers_blank: "flattenNumbers ''   '' = Inr [Fin 0]"
  by (simp add: text_eval)

lemma numbers_abc: "flattenNumbers ''abc'' = Inl (Error ''Invalid number in date'')"
  by (simp add: text_eval)

lemma numbers_5_arc: "flattenNumbers ''5 arc'' = Inr [Fin 5, Fin 0]"
  by (simp add: text_eval)

lemma numbers_5_arcarc_3: "flattenNumbers ''5 arcarc 3'' = Inr [Fin 5, Fin 0, Fin 3]"
  by (simp add: text_eval)

text \<open>The no-break space is white space: it is trimmed and it separates tokens.\<close>

lemma numbers_no_break_space:
  "flattenNumbers [CHR 0xA0, CHR ''7''] = Inr [Fin 7]"
  "flattenNumbers [CHR ''5'', CHR 0xA0, CHR ''3''] = Inr [Fin 5, Fin 3]"
  by (simp_all add: text_eval)

lemma Number_1e308: "Number ''1e308'' = Fin 100000000000000001097906362944045541740492309677311846336810682903157585404911491537163328978494688899061249669721172515611590283743140088328307009198146046031271664502933027185697489699588559043338384466165001178426897626212945177628091195786707458122783970171784415105291802893207873272974885715430223118336"
  by (simp add: text_eval rnd_1e308)

text \<open>
  The code assigns the numbers it has collected by their count: four give klik, chord,
  cycle, solarCycle; three give chord, cycle, solarCycle; two give klik, chord; one gives
  cycle; and a field that is not assigned is null.
\<close>

lemma assign_by_count:
  assumes "flattenNumbers input = Inr ns"
  shows "length ns = 4 \<Longrightarrow> parseCybertronianDate input =
           Inr (Some \<lparr>klik = Some (ns ! 0), chord = Some (ns ! 1), cycle = Some (ns ! 2),
                       solarCycle = Some (ns ! 3)\<rparr>)"
    and "length ns = 3 \<Longrightarrow> parseCybertronianDate input =
           Inr (Some \<lparr>klik = None, chord = Some (ns ! 0), cycle = Some (ns ! 1),
                       solarCycle = Some (ns ! 2)\<rparr>)"
    and "length ns = 2 \<Longrightarrow> parseCybertronianDate input =
           Inr (Some \<lparr>klik = Some (ns ! 0), chord = Some (ns ! 1), cycle = None,
                       solarCycle = None\<rparr>)"
    and "length ns = 1 \<Longrightarrow> parseCybertronianDate input =
           Inr (Some \<lparr>klik = None, chord = None, cycle = Some (ns ! 0),
                       solarCycle = None\<rparr>)"
  using parse_of_numbers[OF assms] by (simp_all add: assignFields_def emptyDate_def)

text \<open>The three inputs of the specification, and a full date, parse as it says.\<close>

lemma parse_examples:
  "parseCybertronianDate ''5 arc 3'' =
     Inr (Some \<lparr>klik = Some (Fin 5), chord = Some (Fin 3), cycle = None, solarCycle = None\<rparr>)"
  "parseCybertronianDate ''7'' =
     Inr (Some \<lparr>klik = None, chord = None, cycle = Some (Fin 7), solarCycle = None\<rparr>)"
  "parseCybertronianDate ''1 2 arc 3'' =
     Inr (Some \<lparr>klik = None, chord = Some (Fin 1), cycle = Some (Fin 2),
                 solarCycle = Some (Fin 3)\<rparr>)"
  "parseCybertronianDate ''54 arc 4 593 arc 129'' =
     Inr (Some \<lparr>klik = Some (Fin 54), chord = Some (Fin 4), cycle = Some (Fin 593),
                 solarCycle = Some (Fin 129)\<rparr>)"
  using parse_of_numbers[OF numbers_5_arc_3] parse_of_numbers[OF numbers_7]
    parse_of_numbers[OF numbers_1_2_arc_3] parse_of_numbers[OF numbers_full]
  by (simp_all add: assignFields_def emptyDate_def)

lemmas spec_text_eval = spec_parse_def spec_numbers_def spec_tokens_def spec_split_def

lemma spec_parse_examples:
  "spec_parse ''5 arc 3'' =
     Some \<lparr>klik = Some (Fin 5), chord = Some (Fin 3), cycle = None, solarCycle = None\<rparr>"
  "spec_parse ''7'' = Some \<lparr>klik = None, chord = None, cycle = Some (Fin 7), solarCycle = None\<rparr>"
  "spec_parse ''1 2 arc 3'' =
     Some \<lparr>klik = None, chord = Some (Fin 1), cycle = Some (Fin 2), solarCycle = Some (Fin 3)\<rparr>"
  "spec_parse [] = None"
  "spec_parse ''abc'' = None"
  by (simp_all add: spec_text_eval text_eval)

text \<open>
  C1. A text whose numbers are one in count gives a date with the cycle alone. The text
  \<^verbatim>\<open>5 arc\<close> holds the one number 5, and the specification's parse is the date with cycle 5.
  The code splits it at the keyword into \<^verbatim>\<open>5\<close> and the empty text, converts the empty text
  to the number 0, counts two numbers and returns klik 5 and chord 0: a field that the
  text does not give is zero, not null.
\<close>

theorem parse_counts_empty_piece:
  "spec_numbers ''5 arc'' = [Fin 5] \<and>
   spec_parse ''5 arc'' =
     Some \<lparr>klik = None, chord = None, cycle = Some (Fin 5), solarCycle = None\<rparr> \<and>
   arcPartsOf ''5 arc'' = [''5'', []] \<and>
   flattenNumbers ''5 arc'' = Inr [Fin 5, Fin 0] \<and>
   parseCybertronianDate ''5 arc'' =
     Inr (Some \<lparr>klik = Some (Fin 5), chord = Some (Fin 0), cycle = None, solarCycle = None\<rparr>)"
proof -
  have a: "spec_numbers ''5 arc'' = [Fin 5]"
    by (simp add: spec_text_eval text_eval)
  have b: "spec_parse ''5 arc'' =
     Some \<lparr>klik = None, chord = None, cycle = Some (Fin 5), solarCycle = None\<rparr>"
    by (simp add: spec_parse_def a isNaN_def)
  have c: "arcPartsOf ''5 arc'' = [''5'', []]"
    by (simp add: text_eval)
  have d: "parseCybertronianDate ''5 arc'' =
     Inr (Some \<lparr>klik = Some (Fin 5), chord = Some (Fin 0), cycle = None, solarCycle = None\<rparr>)"
    using parse_of_numbers[OF numbers_5_arc] by (simp add: assignFields_def emptyDate_def)
  show ?thesis using a b c d numbers_5_arc by simp
qed

text \<open>
  C2. The parser's failures. The empty text and a text of white space alone are not
  rejected: splitting the empty text gives one empty token, which converts to the
  number \<open>0\<close>, so the token sequence has length one and the result is the date whose
  cycle is \<open>0\<close>. The text \<^verbatim>\<open>abc\<close> is rejected.
\<close>

theorem parse_empty_text_is_cycle_zero:
  "arcPartsOf [] = [[]] \<and>
   flattenNumbers [] = Inr [Fin 0] \<and>
   parseCybertronianDate [] =
     Inr (Some \<lparr>klik = None, chord = None, cycle = Some (Fin 0), solarCycle = None\<rparr>) \<and>
   parseCybertronianDate ''   '' =
     Inr (Some \<lparr>klik = None, chord = None, cycle = Some (Fin 0), solarCycle = None\<rparr>) \<and>
   \<not> parseFails (parseCybertronianDate []) \<and>
   parseFails (parseCybertronianDate ''abc'')"
proof -
  have a: "parseCybertronianDate [] = Inr (assignFields [Fin 0])"
    using numbers_empty by (rule parse_of_numbers)
  have b: "parseCybertronianDate ''   '' = Inr (assignFields [Fin 0])"
    using numbers_blank by (rule parse_of_numbers)
  have c: "arcPartsOf [] = [[]]"
    by (simp add: text_eval)
  have d: "parseCybertronianDate ''abc'' = Inl (Error ''Invalid number in date'')"
    using arcParts_present[of "''abc''"] by (simp add: parseCybertronianDate_def numbers_abc)
  show ?thesis
    by (simp add: a b c d numbers_empty assignFields_def emptyDate_def parseFails_def)
qed

section \<open>Properties of the conversions\<close>





text \<open>
  The steps of the conversion of 400150368 seconds: 4631.37 days; one solar cycle, which
  leaves 978.8699999999999 days; these divided by the cycle are below 268 and round to
  268; 268 cycles round to \<open>2^-43\<close> days more than what is left; so the remainder is
  \<open>-2^-43\<close> days and its floored quotient by the chord is \<open>-1\<close>.
\<close>

lemma fromSeconds_400150368_steps:
  "fdiv (Fin 400150368) (Fin 86400) = Fin (5092245167532933 / 1099511627776) \<and>
   ffloor (fdiv (Fin (5092245167532933 / 1099511627776)) SOLAR_CYCLE_DAYS) = Fin 1 \<and>
   fsub (Fin (5092245167532933 / 1099511627776)) (fmul (Fin 1) SOLAR_CYCLE_DAYS) =
     Fin (1076278947081093 / 1099511627776) \<and>
   (1076278947081093 / 1099511627776) / (1028087352435671 / 281474976710656) < (268::rat) \<and>
   fdiv (Fin (1076278947081093 / 1099511627776)) CYCLE = Fin 268 \<and>
   fmul (Fin 268) CYCLE = Fin (8610231576648745 / 8796093022208) \<and>
   fsub (Fin (1076278947081093 / 1099511627776)) (Fin (8610231576648745 / 8796093022208)) =
     Fin (- (1 / 8796093022208)) \<and>
   ffloor (fdiv (Fin (- (1 / 8796093022208))) (fdiv CYCLE (Fin 10))) = Fin (- 1)"
  by (simp add: unit_values fsub_def rnd_values)

text \<open>
  C4. The date of a number of seconds is computed by successive floored division and has
  all four fields populated. Its fields are not always non-negative: for 400150368
  seconds the remainder after the cycles is rounded to \<open>-2^-43\<close> days, and the chord
  is \<open>-1\<close>.
\<close>

theorem fromSeconds_negative_chord:
  "klik (earthSecondsToCyberDate s) \<noteq> None \<and>
   chord (earthSecondsToCyberDate s) \<noteq> None \<and>
   cycle (earthSecondsToCyberDate s) \<noteq> None \<and>
   solarCycle (earthSecondsToCyberDate s) \<noteq> None \<and>
   earthSecondsToCyberDate (Fin 400150368) =
     \<lparr>klik = Some (Fin 99), chord = Some (Fin (- 1)), cycle = Some (Fin 268),
        solarCycle = Some (Fin 1)\<rparr>"
  by (simp add: fromSeconds_400150368) (simp add: earthSecondsToCyberDate_def Let_def)

text \<open>
  C5, as the specification states it, fails: at 749493 seconds, which is 2375 kliks
  exactly, the date is 2 cycles, 3 chords and 74 kliks, and its seconds are more than
  one klik (315.576 seconds) below 749493.
\<close>

theorem roundtrip_exceeds_one_klik:
  "cyberDateToEarthSeconds (earthSecondsToCyberDate (Fin 749493)) =
     Fin (3217692534981525 / 4294967296) \<and>
   (315576 / 1000 :: rat) < 749493 - 3217692534981525 / 4294967296 \<and>
   flt (fmul (fdiv CYCLE (Fin 1000)) (Fin 86400))
       (fsub (Fin 749493) (cyberDateToEarthSeconds (earthSecondsToCyberDate (Fin 749493))))"
  by (simp add: fromSeconds_749493 toSeconds_74_3_2_0 unit_values fsub_def rnd_values)

text \<open>
  C10. The fields below the solar cycle are not always within their carrying ranges: the
  chord of 400150368 seconds is \<open>-1\<close>.
\<close>

theorem fromSeconds_chord_below_range:
  "chord (earthSecondsToCyberDate (Fin 400150368)) = Some (Fin (- 1)) \<and>
   flt (Fin (- 1)) (Fin 0)"
  by (simp add: fromSeconds_400150368)

section \<open>Properties of the formatter\<close>

text \<open>
  C6, as the specification states it, fails: a date with klik, chord and cycle set and
  solarCycle null is printed as \<^verbatim>\<open>klik arc chord\<close>, not as \<^verbatim>\<open>Invalid date\<close>.
\<close>

theorem format_klik_chord_cycle_counterexample:
  "formatCyberDate \<lparr>klik = Some (Fin 1), chord = Some (Fin 2), cycle = Some (Fin 3),
                     solarCycle = None\<rparr> = [Num (Fin 1), Lit '' arc '', Num (Fin 2)] \<and>
   formatCyberDate \<lparr>klik = Some (Fin 1), chord = Some (Fin 2), cycle = Some (Fin 3),
                     solarCycle = None\<rparr> \<noteq> [Lit ''Invalid date'']"
  by (simp add: formatCyberDate_def)

text \<open>
  C6, amended. The formatter returns the first shape that applies: all four fields set
  give \<^verbatim>\<open>klik arc chord cycle arc solarCycle\<close>; chord, cycle and solarCycle set with klik
  null give \<^verbatim>\<open>chord cycle arc solarCycle\<close>; klik and chord set, with cycle or solarCycle
  null, give \<^verbatim>\<open>klik arc chord\<close>; otherwise a set cycle gives \<^verbatim>\<open>cycle\<close>; and exactly the
  dates with cycle null and klik or chord null give \<^verbatim>\<open>Invalid date\<close>.
\<close>

theorem format_shapes:
  "(klik d = Some k \<and> chord d = Some c \<and> cycle d = Some y \<and> solarCycle d = Some s \<longrightarrow>
      formatCyberDate d =
        [Num k, Lit '' arc '', Num c, Lit '' '', Num y, Lit '' arc '', Num s]) \<and>
   (klik d = None \<and> chord d = Some c \<and> cycle d = Some y \<and> solarCycle d = Some s \<longrightarrow>
      formatCyberDate d = [Num c, Lit '' '', Num y, Lit '' arc '', Num s]) \<and>
   (klik d = Some k \<and> chord d = Some c \<and> (cycle d = None \<or> solarCycle d = None) \<longrightarrow>
      formatCyberDate d = [Num k, Lit '' arc '', Num c]) \<and>
   (cycle d = Some y \<and> (chord d = None \<or> (klik d = None \<and> solarCycle d = None)) \<longrightarrow>
      formatCyberDate d = [Num y]) \<and>
   (formatCyberDate d = [Lit ''Invalid date''] \<longleftrightarrow>
      cycle d = None \<and> (klik d = None \<or> chord d = None))"
  by (cases "klik d"; cases "chord d"; cases "cycle d"; cases "solarCycle d")
     (simp_all add: formatCyberDate_def)

theorem format_shapes_witness:
  "formatCyberDate \<lparr>klik = Some (Fin 54), chord = Some (Fin 4), cycle = Some (Fin 593),
                     solarCycle = Some (Fin 129)\<rparr> =
     [Num (Fin 54), Lit '' arc '', Num (Fin 4), Lit '' '', Num (Fin 593), Lit '' arc '',
      Num (Fin 129)] \<and>
   formatCyberDate \<lparr>klik = None, chord = Some (Fin 1), cycle = Some (Fin 2),
                     solarCycle = Some (Fin 3)\<rparr> =
     [Num (Fin 1), Lit '' '', Num (Fin 2), Lit '' arc '', Num (Fin 3)] \<and>
   formatCyberDate \<lparr>klik = Some (Fin 5), chord = Some (Fin 3), cycle = None,
                     solarCycle = None\<rparr> = [Num (Fin 5), Lit '' arc '', Num (Fin 3)] \<and>
   formatCyberDate \<lparr>klik = None, chord = None, cycle = Some (Fin 7), solarCycle = None\<rparr> =
     [Num (Fin 7)] \<and>
   formatCyberDate \<lparr>klik = None, chord = None, cycle = None, solarCycle = Some (Fin 9)\<rparr> =
     [Lit ''Invalid date'']"
  using
    format_shapes [of "\<lparr>klik = Some (Fin 54), chord = Some (Fin 4), cycle = Some (Fin 593),
                        solarCycle = Some (Fin 129)\<rparr>" "Fin 54" "Fin 4" "Fin 593" "Fin 129"]
    format_shapes [of "\<lparr>klik = None, chord = Some (Fin 1), cycle = Some (Fin 2),
                        solarCycle = Some (Fin 3)\<rparr>" "Fin 0" "Fin 1" "Fin 2" "Fin 3"]
    format_shapes [of "\<lparr>klik = Some (Fin 5), chord = Some (Fin 3), cycle = None,
                        solarCycle = None\<rparr>" "Fin 5" "Fin 3" "Fin 0" "Fin 0"]
    format_shapes [of "\<lparr>klik = None, chord = None, cycle = Some (Fin 7),
                        solarCycle = None\<rparr>" "Fin 0" "Fin 0" "Fin 7" "Fin 0"]
    format_shapes [of "\<lparr>klik = None, chord = None, cycle = None,
                        solarCycle = Some (Fin 9)\<rparr>" "Fin 0" "Fin 0" "Fin 0" "Fin 9"]
  by simp

text \<open>The printed text of the specification's two examples.\<close>

lemma format_examples:
  "render other (formatCyberDate \<lparr>klik = Some (Fin 5), chord = Some (Fin 3), cycle = None,
                                   solarCycle = None\<rparr>) = ''5 arc 3''"
  "render other (formatCyberDate \<lparr>klik = None, chord = None, cycle = None,
                                   solarCycle = Some (Fin 9)\<rparr>) = ''Invalid date''"
  by (simp_all add: formatCyberDate_def numToString_def showNat.simps digitChar_def)

section \<open>Properties of the difference\<close>

text \<open>A cycle count of \<^verbatim>\<open>1e308\<close> times the length of a cycle overflows.\<close>

lemma cycle_1e308_overflows:
  "fmul (Fin 100000000000000001097906362944045541740492309677311846336810682903157585404911491537163328978494688899061249669721172515611590283743140088328307009198146046031271664502933027185697489699588559043338384466165001178426897626212945177628091195786707458122783970171784415105291802893207873272974885715430223118336) CYCLE = PInf"
  by (simp add: unit_values rnd_overflow)

text \<open>
  C8, as the specification states it, fails. The text \<^verbatim>\<open>1e308\<close> parses to the date whose
  cycle is that finite number. Its seconds are infinite, the difference of the seconds
  with themselves is NaN, and the difference of the date with itself has NaN seconds and
  a date of four NaN fields, not zero seconds and the date of zero seconds.
\<close>

theorem difference_self_overflow:
  "parseCybertronianDate ''1e308'' =
     Inr (Some \<lparr>klik = None, chord = None, cycle = Some (Number ''1e308''), solarCycle = None\<rparr>) \<and>
   isFinite (Number ''1e308'') \<and>
   cyberDateToEarthSeconds
     \<lparr>klik = None, chord = None, cycle = Some (Number ''1e308''), solarCycle = None\<rparr> = PInf \<and>
   differenceBetweenDates
     \<lparr>klik = None, chord = None, cycle = Some (Number ''1e308''), solarCycle = None\<rparr>
     \<lparr>klik = None, chord = None, cycle = Some (Number ''1e308''), solarCycle = None\<rparr> =
   \<lparr>diffSeconds = NaN,
    diffCyber = \<lparr>klik = Some NaN, chord = Some NaN, cycle = Some NaN, solarCycle = Some NaN\<rparr>\<rparr> \<and>
   earthSecondsToCyberDate (Fin 0) =
     \<lparr>klik = Some (Fin 0), chord = Some (Fin 0), cycle = Some (Fin 0), solarCycle = Some (Fin 0)\<rparr>"
proof -
  have n: "flattenNumbers ''1e308'' = Inr [Number ''1e308'']"
    unfolding Number_1e308 by (simp add: text_eval rnd_1e308)
  have a: "parseCybertronianDate ''1e308'' =
     Inr (Some \<lparr>klik = None, chord = None, cycle = Some (Number ''1e308''), solarCycle = None\<rparr>)"
    using parse_of_numbers[OF n] by (simp add: assignFields_def emptyDate_def)
  have b: "isFinite (Number ''1e308'')" by (simp add: Number_1e308 isFinite_def)
  have c: "cyberDateToEarthSeconds
     \<lparr>klik = None, chord = None, cycle = Some (Number ''1e308''), solarCycle = None\<rparr> = PInf"
    by (simp add: cyberDateToEarthSeconds_def Let_def Number_1e308 cycle_1e308_overflows infMul_def)
  have d: "differenceBetweenDates
     \<lparr>klik = None, chord = None, cycle = Some (Number ''1e308''), solarCycle = None\<rparr>
     \<lparr>klik = None, chord = None, cycle = Some (Number ''1e308''), solarCycle = None\<rparr> =
   \<lparr>diffSeconds = NaN,
    diffCyber = \<lparr>klik = Some NaN, chord = Some NaN, cycle = Some NaN, solarCycle = Some NaN\<rparr>\<rparr>"
    by (simp add: differenceBetweenDates_def Let_def c fsub_def earthSecondsToCyberDate_def)
  show ?thesis using a b c d fromSeconds_0 by simp
qed

text \<open>
  C8, amended. The difference of two dates is the absolute value of the difference of their
  seconds, with the date of that many seconds; it is the same in both orders; and a date
  whose seconds are finite has difference zero from itself.
\<close>

theorem difference_abs_symmetric:
  "differenceBetweenDates d1 d2 =
     \<lparr>diffSeconds = fabs (fsub (cyberDateToEarthSeconds d1) (cyberDateToEarthSeconds d2)),
      diffCyber = earthSecondsToCyberDate
        (fabs (fsub (cyberDateToEarthSeconds d1) (cyberDateToEarthSeconds d2)))\<rparr> \<and>
   differenceBetweenDates d1 d2 = differenceBetweenDates d2 d1 \<and>
   (isFinite (cyberDateToEarthSeconds d1) \<longrightarrow>
      differenceBetweenDates d1 d1 =
        \<lparr>diffSeconds = Fin 0, diffCyber = earthSecondsToCyberDate (Fin 0)\<rparr>)"
  by (simp add: differenceBetweenDates_def Let_def fsub_self
        fabs_fsub_commute [of "cyberDateToEarthSeconds d2" "cyberDateToEarthSeconds d1"])

theorem difference_abs_symmetric_witness:
  "isFinite (cyberDateToEarthSeconds
     \<lparr>klik = None, chord = None, cycle = Some (Fin 7), solarCycle = None\<rparr>) \<and>
   differenceBetweenDates
     \<lparr>klik = None, chord = None, cycle = Some (Fin 7), solarCycle = None\<rparr>
     \<lparr>klik = None, chord = None, cycle = Some (Fin 7), solarCycle = None\<rparr> =
   \<lparr>diffSeconds = Fin 0,
    diffCyber = \<lparr>klik = Some (Fin 0), chord = Some (Fin 0), cycle = Some (Fin 0),
                  solarCycle = Some (Fin 0)\<rparr>\<rparr>"
  using difference_abs_symmetric
    [of "\<lparr>klik = None, chord = None, cycle = Some (Fin 7), solarCycle = None\<rparr>"
        "\<lparr>klik = None, chord = None, cycle = Some (Fin 7), solarCycle = None\<rparr>"]
  by (simp add: toSeconds_cycle_7 isFinite_def fromSeconds_0 fsub_def)

section \<open>Properties of the duration parser\<close>

lemmas duration_eval =
  parseHumanTime_def spec_matches_def collectMatch_def scanMatches.simps matchAt_def unitWords_def matchWord_def
  addMatch_def parseInt_def units_def truthy_def toLowerCase_def lowerChar_def upperLetters_def lowerLetters_def isDigit_def
  isSpace_def digitsVal_def digitOf_def rnd_numeral Let_def



lemma duration_1_day: "parseHumanTime ''1 day'' = Fin 86400"
  by (simp add: duration_eval)

lemma duration_200_seconds: "parseHumanTime ''200 seconds'' = Fin 200"
  by (simp add: duration_eval)

lemma duration_soon: "parseHumanTime ''soon'' = Fin 0"
  by (simp add: duration_eval)












text \<open>
  The pattern is complete on well-formed items: the helper lemmas below show that a unit
  word is found by the alternation whatever the case of its letters.
\<close>

lemma length_toLowerCase [simp]: "length (toLowerCase s) = length s"
  by (simp add: toLowerCase_def)

lemma matchWord_other:
  assumes "toLowerCase w = k" "k \<noteq> []" "k' \<noteq> []" "hd k' \<noteq> hd k"
  shows "matchWord k' (w @ rest) = None"
proof -
  from assms(1,2) have w: "w \<noteq> []" by (auto simp: toLowerCase_def)
  have "hd (toLowerCase (take (length k') (w @ rest))) = hd k"
    using w assms(1,3) by (cases w; cases k') (auto simp: toLowerCase_def)
  then have "toLowerCase (take (length k') (w @ rest)) \<noteq> k'" using assms(4) by auto
  then show ?thesis by (simp add: matchWord_def)
qed

lemma matchWord_singular:
  assumes "toLowerCase w = k" "rest = [] \<or> lowerChar (hd rest) \<noteq> CHR ''s''"
  shows "matchWord k (w @ rest) = Some (w, rest)"
proof -
  have l: "length k = length w" using assms(1) by (auto simp: toLowerCase_def)
  show ?thesis using assms by (cases rest) (auto simp: matchWord_def l)
qed

lemma matchWord_plural:
  assumes "toLowerCase w = k" "lowerChar c = CHR ''s''"
  shows "matchWord k (w @ c # rest) = Some (w @ [c], rest)"
proof -
  have l: "length k = length w" using assms(1) by (auto simp: toLowerCase_def)
  show ?thesis using assms by (simp add: matchWord_def l)
qed

lemma firstMatch_unitWords:
  assumes k: "toLowerCase w \<in> set unitWords" and m: "matchWord (toLowerCase w) (w @ rest) = Some r"
  shows "firstMatch unitWords (w @ rest) = Some r"
proof -
  have other: "matchWord k' (w @ rest) = None"
    if "k' \<in> set unitWords" "hd k' \<noteq> hd (toLowerCase w)" for k'
    using matchWord_other[of w "toLowerCase w" k' rest] that k by (auto simp: unitWords_def)
  from k consider "toLowerCase w = ''year''" | "toLowerCase w = ''week''" | "toLowerCase w = ''day''"
    | "toLowerCase w = ''hour''" | "toLowerCase w = ''minute''" | "toLowerCase w = ''second''"
    by (auto simp: unitWords_def)
  then show ?thesis
  proof cases
    case 1
    then show ?thesis using m by (simp add: unitWords_def)
  next
    case 2
    then show ?thesis using m other[of "''year''"] by (simp add: unitWords_def)
  next
    case 3
    then show ?thesis using m other[of "''year''"] other[of "''week''"] by (simp add: unitWords_def)
  next
    case 4
    then show ?thesis
      using m other[of "''year''"] other[of "''week''"] other[of "''day''"]
      by (simp add: unitWords_def)
  next
    case 5
    then show ?thesis
      using m other[of "''year''"] other[of "''week''"] other[of "''day''"] other[of "''hour''"]
      by (simp add: unitWords_def)
  next
    case 6
    then show ?thesis
      using m other[of "''year''"] other[of "''week''"] other[of "''day''"] other[of "''hour''"]
        other[of "''minute''"]
      by (simp add: unitWords_def)
  qed
qed

lemma unit_word_head:
  assumes "toLowerCase w \<in> set unitWords"
  shows "w \<noteq> [] \<and> \<not> isDigit (hd w) \<and> \<not> isSpace (hd w)"
proof -
  from assms have w: "w \<noteq> []" by (auto simp: unitWords_def toLowerCase_def)
  then obtain c t where ct: "w = c # t" by (cases w) auto
  with assms have "lowerChar c \<in> set ''ywdhms''"
    by (auto simp: unitWords_def toLowerCase_def)
  then have "\<not> isDigit c \<and> \<not> isSpace c"
    by (auto simp: isDigit_def isSpace_def lowerChar_def upperLetters_def lowerLetters_def)
  with ct show ?thesis by simp
qed

lemma space_not_digit: "isSpace c \<Longrightarrow> \<not> isDigit c"
  by (auto simp: isSpace_def isDigit_def)

lemma scan_prefix:
  assumes "list_all isDigit ds" "list_all isSpace ws" "toLowerCase w \<in> set unitWords"
  shows "takeWhile isDigit (ds @ ws @ w @ rest) = ds"
    and "dropWhile isSpace (dropWhile isDigit (ds @ ws @ w @ rest)) = w @ rest"
proof -
  from unit_word_head[OF assms(3)] obtain c t where w: "w = c # t"
    and c: "\<not> isDigit c" "\<not> isSpace c" by (cases w) auto
  have nd: "takeWhile isDigit (ws @ w @ rest) = []" "dropWhile isDigit (ws @ w @ rest) = ws @ w @ rest"
    using assms(2) c w by (cases ws; auto simp: space_not_digit)+
  have d1: "takeWhile isDigit (ds @ ws @ w @ rest) = ds @ takeWhile isDigit (ws @ w @ rest)"
    using assms(1) by (intro takeWhile_append2) (simp add: list_all_iff)
  have d2: "dropWhile isDigit (ds @ ws @ w @ rest) = dropWhile isDigit (ws @ w @ rest)"
    using assms(1) by (intro dropWhile_append2) (simp add: list_all_iff)
  have s2: "dropWhile isSpace (ws @ w @ rest) = dropWhile isSpace (w @ rest)"
    using assms(2) by (intro dropWhile_append2) (simp add: list_all_iff)
  show "takeWhile isDigit (ds @ ws @ w @ rest) = ds" by (simp add: d1 nd)
  show "dropWhile isSpace (dropWhile isDigit (ds @ ws @ w @ rest)) = w @ rest"
    unfolding d2 nd(2) s2 using c by (simp add: w)
qed

text \<open>
  Where the text starts with digits, white space and a unit word, the pattern matches
  there, with the plural \<^verbatim>\<open>s\<close> when one follows the word.
\<close>

lemma matchAt_complete:
  assumes "ds \<noteq> []" "list_all isDigit ds" "list_all isSpace ws" "toLowerCase w \<in> set unitWords"
  shows "rest = [] \<or> lowerChar (hd rest) \<noteq> CHR ''s'' \<Longrightarrow>
           matchAt (ds @ ws @ w @ rest) = Some (ds, w, rest)"
    and "lowerChar c = CHR ''s'' \<Longrightarrow>
           matchAt (ds @ ws @ w @ c # rest) = Some (ds, w @ [c], rest)"
proof -
  assume r: "rest = [] \<or> lowerChar (hd rest) \<noteq> CHR ''s''"
  have "firstMatch unitWords (w @ rest) = Some (w, rest)"
    using assms(4) matchWord_singular[OF refl r] by (rule firstMatch_unitWords)
  then show "matchAt (ds @ ws @ w @ rest) = Some (ds, w, rest)"
    using assms(1) scan_prefix[OF assms(2-4), of rest] by (simp add: matchAt_def)
next
  assume c: "lowerChar c = CHR ''s''"
  have "firstMatch unitWords (w @ c # rest) = Some (w @ [c], rest)"
    using assms(4) matchWord_plural[OF refl c] by (rule firstMatch_unitWords)
  then show "matchAt (ds @ ws @ w @ c # rest) = Some (ds, w @ [c], rest)"
    using assms(1) scan_prefix[OF assms(2-4), of "c # rest"] by (simp add: matchAt_def)
qed



section \<open>Properties of adding and subtracting\<close>

text \<open>
  The subtract form, on a date at the origin, shows the error of a result before the
  origin.
\<close>

lemma subtractHandler_before_origin:
  "subtractHandler ''0 0 arc 0'' ''200 seconds'' =
     [Lit ''Error: '', Lit ''Resulting date is before the start of Cybertronian time.'']"
proof -
  have n: "flattenNumbers ''0 0 arc 0'' = Inr [Fin 0, Fin 0, Fin 0]"
    by (simp add: text_eval)
  have p: "parseCybertronianDate ''0 0 arc 0'' =
      Inr (Some \<lparr>klik = None, chord = Some (Fin 0), cycle = Some (Fin 0), solarCycle = Some (Fin 0)\<rparr>)"
    using parse_of_numbers[OF n] by (simp add: assignFields_def emptyDate_def)
  have t: "cyberDateToEarthSeconds
      \<lparr>klik = None, chord = Some (Fin 0), cycle = Some (Fin 0), solarCycle = Some (Fin 0)\<rparr> = Fin 0"
    by (simp add: toSeconds_eval)
  show ?thesis
    by (simp add: subtractHandler_def p requireDate_def subtractEarthTime_def Let_def
          duration_200_seconds t fsub_def rnd_minus rnd_numeral)
qed

text \<open>
  C9. Adding fails exactly when the duration is not positive, and otherwise gives the date
  of the sum of the seconds. Subtracting fails exactly when the duration is not positive
  or the difference of the seconds is negative, and otherwise gives the date of the
  difference. Subtracting 200 seconds from the date of 100 seconds fails with the error
  of a result before the origin.
\<close>

theorem add_subtract_guards:
  "((\<exists>e. addEarthTime d t = Inl e) \<longleftrightarrow> fle (parseHumanTime t) (Fin 0)) \<and>
   (\<not> fle (parseHumanTime t) (Fin 0) \<longrightarrow>
      addEarthTime d t =
        Inr (earthSecondsToCyberDate (fadd (cyberDateToEarthSeconds d) (parseHumanTime t)))) \<and>
   ((\<exists>e. subtractEarthTime d t = Inl e) \<longleftrightarrow>
      fle (parseHumanTime t) (Fin 0)
      \<or> flt (fsub (cyberDateToEarthSeconds d) (parseHumanTime t)) (Fin 0)) \<and>
   (\<not> fle (parseHumanTime t) (Fin 0)
      \<and> \<not> flt (fsub (cyberDateToEarthSeconds d) (parseHumanTime t)) (Fin 0) \<longrightarrow>
      subtractEarthTime d t =
        Inr (earthSecondsToCyberDate (fsub (cyberDateToEarthSeconds d) (parseHumanTime t)))) \<and>
   subtractEarthTime (earthSecondsToCyberDate (Fin 100)) ''200 seconds'' =
     Inl (Error ''Resulting date is before the start of Cybertronian time.'')"
proof -
  have "subtractEarthTime (earthSecondsToCyberDate (Fin 100)) ''200 seconds'' =
     Inl (Error ''Resulting date is before the start of Cybertronian time.'')"
    by (simp add: subtractEarthTime_def Let_def duration_200_seconds fromSeconds_100
          toSeconds_origin fsub_def rnd_minus rnd_numeral)
  then show ?thesis
    by (simp add: addEarthTime_def subtractEarthTime_def Let_def)
qed

theorem add_subtract_guards_witness:
  "\<not> fle (parseHumanTime ''1 day'') (Fin 0) \<and>
   addEarthTime \<lparr>klik = None, chord = None, cycle = Some (Fin 1), solarCycle = None\<rparr> ''1 day'' =
     Inr \<lparr>klik = Some (Fin 73), chord = Some (Fin 2), cycle = Some (Fin 1),
          solarCycle = Some (Fin 0)\<rparr> \<and>
   \<not> flt (fsub (cyberDateToEarthSeconds
                  \<lparr>klik = None, chord = None, cycle = Some (Fin 1), solarCycle = None\<rparr>)
               (parseHumanTime ''1 day'')) (Fin 0) \<and>
   subtractEarthTime \<lparr>klik = None, chord = None, cycle = Some (Fin 1), solarCycle = None\<rparr>
       ''1 day'' =
     Inr \<lparr>klik = Some (Fin 26), chord = Some (Fin 7), cycle = Some (Fin 0),
          solarCycle = Some (Fin 0)\<rparr> \<and>
   fle (parseHumanTime ''soon'') (Fin 0) \<and>
   (\<exists>e. addEarthTime \<lparr>klik = None, chord = None, cycle = Some (Fin 1), solarCycle = None\<rparr>
           ''soon'' = Inl e)"
  using
    add_subtract_guards
      [of "\<lparr>klik = None, chord = None, cycle = Some (Fin 1), solarCycle = None\<rparr>" "''1 day''"]
    add_subtract_guards
      [of "\<lparr>klik = None, chord = None, cycle = Some (Fin 1), solarCycle = None\<rparr>" "''soon''"]
  by (simp add: duration_1_day duration_soon toSeconds_cycle_1 fsub_def rnd_numeral
        fromSeconds_401976 fromSeconds_229176)

section \<open>Seconds to date and back\<close>

lemma round_half_even_error: "\<bar>of_int (round_half_even r) - r\<bar> \<le> 1 / 2"
proof -
  have "of_int \<lfloor>r\<rfloor> \<le> r" "r < of_int \<lfloor>r\<rfloor> + 1" by linarith+
  then show ?thesis
    unfolding round_half_even_def Let_def by (auto simp: abs_le_iff) 
qed

lemma rnd_error:
  assumes x: "\<bar>x\<bar> \<le> M" and lo: "1 / 2 ^ 1022 \<le> M" and hi: "M \<le> 2 ^ 1023"
  obtains y where "rnd x = Fin y" "\<bar>y - x\<bar> \<le> M / 2 ^ 53"
proof (cases "x = 0")
  case True
  have "0 \<le> M" using x by linarith
  then have "rnd x = Fin 0" "\<bar>0 - x\<bar> \<le> M / 2 ^ 53" using True by simp_all
  then show ?thesis by (rule that)
next
  case False
  define q where "q = fexp x"
  define n where "n = round_half_even (x / 2 powi q)"
  define y :: rat where "y = of_int n * 2 powi q"
  have qpos: "(0::rat) < 2 powi q" by simp
  have "\<bar>y - x\<bar> = \<bar>of_int n - x / 2 powi q\<bar> * 2 powi q"
  proof -
    have "y - x = (of_int n - x / 2 powi q) * 2 powi q"
      by (simp add: y_def algebra_simps)
    then show ?thesis using qpos by (simp add: abs_mult)
  qed
  also have "\<dots> \<le> (1 / 2) * 2 powi q"
    unfolding n_def using round_half_even_error[of "x / 2 powi q"] qpos
    by (intro mult_right_mono) simp_all
  also have "\<dots> = 2 powi (q + 52) / 2 ^ 53"
    by (simp add: power_int_add)
  also have "\<dots> \<le> M / 2 ^ 53"
  proof -
    have xpos: "0 < \<bar>x\<bar>" using False by simp
    have "2 powi (q + 52) \<le> M"
    proof (cases "- 1022 \<le> ilog2 \<bar>x\<bar>")
      case True
      then have "q + 52 = ilog2 \<bar>x\<bar>" by (simp add: q_def fexp_def)
      then show ?thesis using ilog2_bounds(1)[OF xpos] x by simp
    next
      case False
      then have "q + 52 = - 1022" by (simp add: q_def fexp_def)
      then have "(2::rat) powi (q + 52) = 2 powi (- 1022)" by (rule arg_cong)
      also have "\<dots> = 1 / 2 ^ 1022" by (simp add: power_int_minus_divide)
      finally show ?thesis using lo by (simp only:)
    qed
    then show ?thesis by (simp add: divide_right_mono)
  qed
  finally have err: "\<bar>y - x\<bar> \<le> M / 2 ^ 53" .
  have "\<bar>y\<bar> \<le> \<bar>x\<bar> + \<bar>y - x\<bar>" by linarith
  also have "\<dots> \<le> M + M / 2 ^ 53" using x err by linarith
  also have "\<dots> < 2 ^ 1024" using hi by simp
  finally have "\<not> 2 ^ 1024 \<le> \<bar>y\<bar>" by simp
  then have "rnd x = Fin y"
    using False by (simp add: rnd_def Let_def y_def n_def q_def)
  then show ?thesis using err by (rule that)
qed


lemma div_floor_step:
  fixes c T t x :: rat
  assumes c: "1 / 2 ^ 10 \<le> c" "c \<le> T" and T: "T \<le> 2 ^ 1010" and t: "\<bar>t\<bar> \<le> T"
    and x: "x = T / 2 ^ 53"
  obtains n p t' where
    "ffloor (fdiv (Fin t) (Fin c)) = Fin (of_int n)"
    "fmul (Fin (of_int n)) (Fin c) = Fin p"
    "fsub (Fin t) (Fin p) = Fin t'"
    "p - of_int n * c \<le> 3 * x" "of_int n * c - p \<le> 3 * x"
    "t' - (t - of_int n * c) \<le> 8 * x" "(t - of_int n * c) - t' \<le> 8 * x"
    "- x \<le> t - of_int n * c" "t - of_int n * c \<le> c + x"
    "\<bar>p\<bar> \<le> 3 * T" "\<bar>t'\<bar> \<le> c + 9 * x"
proof -
  have cpos: "0 < c" using c(1) by (rule less_le_trans[rotated]) simp
  have Tpos: "0 < T" using cpos c(2) by linarith
  have x0: "0 \<le> x" using Tpos by (simp add: x)
  have xT: "4 * x \<le> T" using Tpos by (simp add: x field_simps)
  \<comment> \<open>the quotient\<close>
  have b1: "\<bar>t / c\<bar> \<le> T / c"
    using t cpos by (simp add: abs_divide divide_right_mono)
  have ge1: "1 \<le> T / c" using c(2) cpos by (simp add: le_divide_eq)
  have lo1: "1 / 2 ^ 1022 \<le> T / c"
  proof -
    have "(1::rat) / 2 ^ 1022 \<le> 1" by simp
    then show ?thesis using ge1 by (rule order_trans)
  qed
  have hi1: "T / c \<le> 2 ^ 1023"
  proof -
    have "T \<le> T * (c * 2 ^ 10)"
    proof -
      have "1 \<le> c * 2 ^ 10" using c(1) by (simp add: field_simps)
      then show ?thesis using Tpos by (simp add: mult_le_cancel_left1 del: mult_numeral_left_semiring_numeral)
    qed
    then have "T / c \<le> T * 2 ^ 10" using cpos by (simp add: divide_le_eq algebra_simps)
    also have "\<dots> \<le> 2 ^ 1010 * 2 ^ 10" using T by (intro mult_right_mono) simp_all
    also have "\<dots> \<le> (2::rat) ^ 1023" by simp
    finally show ?thesis .
  qed
  obtain q where q: "rnd (t / c) = Fin q" "\<bar>q - t / c\<bar> \<le> T / c / 2 ^ 53"
    using rnd_error[OF b1 lo1 hi1] by blast
  define n where "n = \<lfloor>q\<rfloor>"
  have n1: "of_int n \<le> q" and n2: "q < of_int n + 1" unfolding n_def by linarith+
  have cq: "\<bar>q * c - t\<bar> \<le> x"
  proof -
    have "\<bar>q * c - t\<bar> = \<bar>q - t / c\<bar> * c"
    proof -
      have "q * c - t = (q - t / c) * c" using cpos by (simp add: algebra_simps)
      then show ?thesis using cpos by (simp add: abs_mult)
    qed
    also have "\<dots> \<le> T / c / 2 ^ 53 * c"
      using q(2) cpos by (intro mult_right_mono) simp_all
    also have "\<dots> = x" using cpos by (simp add: x)
    finally show ?thesis .
  qed
  have nc1: "of_int n * c \<le> q * c" using n1 cpos by (simp add: mult_right_mono)
  have nc2: "q * c \<le> of_int n * c + c"
  proof -
    have "q * c \<le> (of_int n + 1) * c" using n2 cpos by (intro mult_right_mono) simp_all
    then show ?thesis by (simp add: algebra_simps)
  qed
  have lower: "- x \<le> t - of_int n * c" using cq nc1 by linarith
  have upper: "t - of_int n * c \<le> c + x" using cq nc2 by linarith
  \<comment> \<open>the product\<close>
  have b3: "\<bar>of_int n * c\<bar> \<le> 3 * T" using lower upper t c(2) xT x0 by linarith
  have lo3: "1 / 2 ^ 1022 \<le> 3 * T"
  proof -
    have "(1::rat) / 2 ^ 1022 \<le> 1 / 2 ^ 10" by simp
    then show ?thesis using c Tpos by linarith
  qed
  have hi3: "3 * T \<le> 2 ^ 1023"
  proof -
    have "3 * T \<le> 3 * 2 ^ 1010" using T by simp
    also have "\<dots> \<le> (2::rat) ^ 1023" by simp
    finally show ?thesis .
  qed
  obtain p where p: "rnd (of_int n * c) = Fin p" "\<bar>p - of_int n * c\<bar> \<le> 3 * T / 2 ^ 53"
    using rnd_error[OF b3 lo3 hi3] by blast
  have p': "\<bar>p - of_int n * c\<bar> \<le> 3 * x" using p(2) by (simp add: x)
  \<comment> \<open>the remainder\<close>
  have b4: "\<bar>t - p\<bar> \<le> 5 * T" using lower upper p' c(2) xT x0 by linarith
  have lo4: "1 / 2 ^ 1022 \<le> 5 * T" using lo3 Tpos by linarith
  have hi4: "5 * T \<le> 2 ^ 1023"
  proof -
    have "5 * T \<le> 5 * 2 ^ 1010" using T by simp
    also have "\<dots> \<le> (2::rat) ^ 1023" by simp
    finally show ?thesis .
  qed
  obtain t' where t': "rnd (t - p) = Fin t'" "\<bar>t' - (t - p)\<bar> \<le> 5 * T / 2 ^ 53"
    using rnd_error[OF b4 lo4 hi4] by blast
  have t'': "\<bar>t' - (t - p)\<bar> \<le> 5 * x" using t'(2) by (simp add: x)
  have r1: "ffloor (fdiv (Fin t) (Fin c)) = Fin (of_int n)"
    using cpos by (simp add: q(1) n_def)
  have r2: "fmul (Fin (of_int n)) (Fin c) = Fin p" by (simp add: p(1))
  have r3: "fsub (Fin t) (Fin p) = Fin t'" by (simp add: fsub_def t'(1))
  have c1: "p - of_int n * c \<le> 3 * x" and c2: "of_int n * c - p \<le> 3 * x"
    using p' by linarith+
  have c3: "t' - (t - of_int n * c) \<le> 8 * x" and c4: "(t - of_int n * c) - t' \<le> 8 * x"
    using p' t'' by linarith+
  have c5: "\<bar>p\<bar> \<le> 3 * T" using c1 c2 lower upper t c(2) xT x0 by linarith
  have c6: "\<bar>t'\<bar> \<le> c + 9 * x" using c3 c4 lower upper x0 cpos by linarith
  show ?thesis using r1 r2 r3 c1 c2 c3 c4 lower upper c5 c6 by (rule that)
qed

lemma fadd_zero_product: "fmul x y = Fin p \<Longrightarrow> fadd (Fin 0) (Fin p) = Fin p"
  using isDouble_fmul[of x y] fadd_zero_left[of "Fin p"] by simp

lemma fromSeconds_steps:
  assumes "fdiv (Fin s) (Fin 86400) = Fin t0"
    and "ffloor (fdiv (Fin t0) (Fin (7305 / 2))) = Fin sc"
    and "fmul (Fin sc) (Fin (7305 / 2)) = Fin p1"
    and "fsub (Fin t0) (Fin p1) = Fin t1"
    and "ffloor (fdiv (Fin t1) (Fin (1028087352435671 / 281474976710656))) = Fin cy"
    and "fmul (Fin cy) (Fin (1028087352435671 / 281474976710656)) = Fin p2"
    and "fsub (Fin t1) (Fin p2) = Fin t2"
    and "ffloor (fdiv (Fin t2) (Fin (3289879527794147 / 9007199254740992))) = Fin ch"
    and "fmul (Fin ch) (Fin (3289879527794147 / 9007199254740992)) = Fin p3"
    and "fsub (Fin t2) (Fin p3) = Fin t3"
    and "ffloor (fdiv (Fin t3) (Fin (8422091591153017 / 2305843009213693952))) = Fin kl"
  shows "earthSecondsToCyberDate (Fin s) =
           \<lparr>klik = Some (Fin kl), chord = Some (Fin ch), cycle = Some (Fin cy),
              solarCycle = Some (Fin sc)\<rparr>"
  unfolding earthSecondsToCyberDate_def Let_def chordDays_value klikDays_value
  unfolding CYCLE_value SOLAR_CYCLE_DAYS_value
  unfolding assms ..

lemma toSeconds_steps:
  assumes "fmul (Fin sc) (Fin (7305 / 2)) = Fin p1"
    and "fmul (Fin cy) (Fin (1028087352435671 / 281474976710656)) = Fin p2"
    and "fmul (Fin ch) (Fin (3289879527794147 / 9007199254740992)) = Fin p3"
    and "fmul (Fin kl) (Fin (8422091591153017 / 2305843009213693952)) = Fin p4"
    and "fadd (Fin p1) (Fin p2) = Fin a2"
    and "fadd (Fin a2) (Fin p3) = Fin a3"
    and "fadd (Fin a3) (Fin p4) = Fin a4"
    and "fmul (Fin a4) (Fin 86400) = Fin r"
  shows "cyberDateToEarthSeconds
           \<lparr>klik = Some (Fin kl), chord = Some (Fin ch), cycle = Some (Fin cy),
              solarCycle = Some (Fin sc)\<rparr> = Fin r"
proof -
  have z: "fadd (Fin 0) (Fin p1) = Fin p1" using assms(1) by (rule fadd_zero_product)
  have "cyberDateToEarthSeconds
           \<lparr>klik = Some (Fin kl), chord = Some (Fin ch), cycle = Some (Fin cy),
              solarCycle = Some (Fin sc)\<rparr> =
        fmul (fadd (fadd (fadd (fadd (Fin 0) (fmul (Fin sc) SOLAR_CYCLE_DAYS))
          (fmul (Fin cy) CYCLE)) (fmul (Fin ch) (fdiv CYCLE (Fin 10))))
          (fmul (Fin kl) (fdiv CYCLE (Fin 1000)))) (Fin 86400)"
    by (simp add: cyberDateToEarthSeconds_def Let_def)
  also have "\<dots> = Fin r"
    unfolding chordDays_value klikDays_value
    unfolding CYCLE_value SOLAR_CYCLE_DAYS_value
    unfolding assms(1-4) z assms(5-8) ..
  finally show ?thesis .
qed


lemma rnd_error_sides:
  assumes "\<bar>x\<bar> \<le> M" "1 / 2 ^ 1022 \<le> M" "M \<le> 2 ^ 1023" "w = M / 2 ^ 53"
  obtains y where "rnd x = Fin y" "y - x \<le> w" "x - y \<le> w"
proof -
  obtain y where y: "rnd x = Fin y" "\<bar>y - x\<bar> \<le> M / 2 ^ 53"
    using rnd_error[OF assms(1-3)] by blast
  from y(2) have "y - x \<le> w" "x - y \<le> w" unfolding assms(4) by linarith+
  with y(1) show ?thesis by (rule that)
qed

text \<open>
  C5, amended. For every number of seconds from zero up to \<open>2^1000\<close>, the seconds of
  its date are within one klik (315.576 seconds) of it, up to rounding: the distance is
  at most \<open>315.576 + 10^-5 + s / 2^45\<close>.
\<close>

theorem roundtrip_within_klik_and_rounding:
  assumes s0: "0 \<le> s" and s1: "s \<le> 2 ^ 1000"
  shows "\<exists>r. cyberDateToEarthSeconds (earthSecondsToCyberDate (Fin s)) = Fin r \<and>
             \<bar>r - s\<bar> \<le> 315576 / 1000 + 1 / 10 ^ 5 + s / 2 ^ 45"
proof -
  let ?A = "7305 / 2 :: rat"
  let ?B = "1028087352435671 / 281474976710656 :: rat"
  let ?C = "3289879527794147 / 9007199254740992 :: rat"
  let ?K = "8422091591153017 / 2305843009213693952 :: rat"
  define d where "d = s / 86400"
  define z where "z = s / 2 ^ 45"
  have d0: "0 \<le> d" using s0 by (simp add: d_def)
  have d1: "d \<le> 2 ^ 984"
  proof -
    have "d \<le> 2 ^ 1000 / 86400" using s1 by (simp add: d_def divide_right_mono)
    also have "\<dots> \<le> (2::rat) ^ 984" by simp
    finally show ?thesis .
  qed
  have sd: "s = 86400 * d" by (simp add: d_def)
  have zd: "z * 35184372088832 = 86400 * d" by (simp add: z_def d_def)
  \<comment> \<open>the magnitudes and the rounding errors they allow\<close>
  define x0 where "x0 = (d + 1) / 2 ^ 53"
  define T0 where "T0 = 2 * d + ?A"
  define x1 where "x1 = T0 / 2 ^ 53"
  define T1 where "T1 = ?A + 9 * x1"
  define x2 where "x2 = T1 / 2 ^ 53"
  define T2 where "T2 = ?B + 9 * x2"
  define x3 where "x3 = T2 / 2 ^ 53"
  define T3 where "T3 = ?C + 9 * x3"
  define x4 where "x4 = T3 / 2 ^ 53"
  define W where "W = 3 * (T0 + T1 + T2 + T3)"
  define w where "w = 2 * W / 2 ^ 53"
  have n0: "x0 * 9007199254740992 = d + 1" by (simp add: x0_def)
  have n1: "x1 * 9007199254740992 = T0" by (simp add: x1_def)
  have n2: "x2 * 9007199254740992 = T1" by (simp add: x2_def)
  have n3: "x3 * 9007199254740992 = T2" by (simp add: x3_def)
  have n4: "x4 * 9007199254740992 = T3" by (simp add: x4_def)
  have nw: "w * 9007199254740992 = 2 * W" by (simp add: w_def)
  have T0a: "?A \<le> T0" using d0 by (simp add: T0_def)
  have x1a: "0 \<le> x1" "x1 \<le> T0" using n1 T0a by linarith+
  have T1a: "?A \<le> T1" "T1 \<le> 10 * T0" using x1a T0a by (simp_all add: T1_def)
  have x2a: "0 \<le> x2" "x2 \<le> T1" using n2 T1a by linarith+
  have T2a: "?B \<le> T2" "T2 \<le> 10 * T1" using x2a T1a by (simp_all add: T2_def)
  have x3a: "0 \<le> x3" "x3 \<le> T2" using n3 T2a by linarith+
  have T3a: "?C \<le> T3" "T3 \<le> 10 * T2" using x3a T2a by (simp_all add: T3_def)
  have x4a: "0 \<le> x4" "x4 \<le> T3" using n4 T3a by linarith+
  have T0b: "T0 \<le> 2 ^ 986"
  proof -
    have "T0 \<le> 2 * 2 ^ 984 + ?A" using d1 by (simp add: T0_def)
    also have "\<dots> \<le> (2::rat) ^ 986" by simp
    finally show ?thesis .
  qed
  have T3b: "T3 \<le> 1000 * T0" using T1a T2a T3a by linarith
  have T2b: "T2 \<le> 100 * T0" using T1a T2a by linarith
  have cap: "1000 * T0 \<le> 2 ^ 1000"
  proof -
    have "1000 * T0 \<le> 1000 * 2 ^ 986" using T0b by simp
    also have "\<dots> \<le> (2::rat) ^ 1000" by simp
    finally show ?thesis .
  qed
  have up: "(2::rat) ^ 1000 \<le> 2 ^ 1010" by simp
  have T0c: "T0 \<le> 2 ^ 1010" using cap up T0a by linarith
  have T1c: "T1 \<le> 2 ^ 1010" using cap up T0a T1a by linarith
  have T2c: "T2 \<le> 2 ^ 1010" using cap up T0a T2b by linarith
  have T3c: "T3 \<le> 2 ^ 1010" using cap up T3b by linarith
  \<comment> \<open>seconds to days\<close>
  obtain t0 where t0: "rnd (s / 86400) = Fin t0" and e0: "t0 - d \<le> x0" "d - t0 \<le> x0"
  proof -
    have "\<bar>d\<bar> \<le> d + 1" using d0 by simp
    moreover have "1 / 2 ^ 1022 \<le> d + 1"
    proof -
      have "(1::rat) / 2 ^ 1022 \<le> 1" by simp
      then show ?thesis using d0 by linarith
    qed
    moreover have "d + 1 \<le> 2 ^ 1023"
    proof -
      have "(2::rat) ^ 984 + 1 \<le> 2 ^ 1023" by simp
      then show ?thesis using d1 by linarith
    qed
    ultimately show ?thesis
      using rnd_error_sides[of d "d + 1" x0] that by (auto simp: d_def x0_def)
  qed
  have f0: "fdiv (Fin s) (Fin 86400) = Fin t0" by (simp add: t0)
  have x0a: "0 \<le> x0" "x0 \<le> d + 1" using n0 d0 by linarith+
  have a0: "\<bar>t0\<bar> \<le> T0" using e0 x0a d0 unfolding T0_def by linarith
  \<comment> \<open>the four floored divisions\<close>
  have cA: "1 / 2 ^ 10 \<le> ?A" and cB: "1 / 2 ^ 10 \<le> ?B" and cC: "1 / 2 ^ 10 \<le> ?C"
    and cK: "1 / 2 ^ 10 \<le> ?K" by simp_all
  obtain sc p1 t1 where
    S1: "ffloor (fdiv (Fin t0) (Fin ?A)) = Fin (of_int sc)"
      "fmul (Fin (of_int sc)) (Fin ?A) = Fin p1"
      "fsub (Fin t0) (Fin p1) = Fin t1"
    and P1: "p1 - of_int sc * ?A \<le> 3 * x1" "of_int sc * ?A - p1 \<le> 3 * x1"
    and E1: "t1 - (t0 - of_int sc * ?A) \<le> 8 * x1" "(t0 - of_int sc * ?A) - t1 \<le> 8 * x1"
    and B1: "\<bar>p1\<bar> \<le> 3 * T0" "\<bar>t1\<bar> \<le> ?A + 9 * x1"
    using div_floor_step[OF cA T0a T0c a0 x1_def] by metis
  have a1: "\<bar>t1\<bar> \<le> T1" using B1(2) by (simp add: T1_def)
  obtain cy p2 t2 where
    S2: "ffloor (fdiv (Fin t1) (Fin ?B)) = Fin (of_int cy)"
      "fmul (Fin (of_int cy)) (Fin ?B) = Fin p2"
      "fsub (Fin t1) (Fin p2) = Fin t2"
    and P2: "p2 - of_int cy * ?B \<le> 3 * x2" "of_int cy * ?B - p2 \<le> 3 * x2"
    and E2: "t2 - (t1 - of_int cy * ?B) \<le> 8 * x2" "(t1 - of_int cy * ?B) - t2 \<le> 8 * x2"
    and B2: "\<bar>p2\<bar> \<le> 3 * T1" "\<bar>t2\<bar> \<le> ?B + 9 * x2"
  proof -
    have "?B \<le> T1" using T1a by simp
    from div_floor_step[OF cB this T1c a1 x2_def] show ?thesis using that by metis
  qed
  have a2: "\<bar>t2\<bar> \<le> T2" using B2(2) by (simp add: T2_def)
  obtain ch p3 t3 where
    S3: "ffloor (fdiv (Fin t2) (Fin ?C)) = Fin (of_int ch)"
      "fmul (Fin (of_int ch)) (Fin ?C) = Fin p3"
      "fsub (Fin t2) (Fin p3) = Fin t3"
    and P3: "p3 - of_int ch * ?C \<le> 3 * x3" "of_int ch * ?C - p3 \<le> 3 * x3"
    and E3: "t3 - (t2 - of_int ch * ?C) \<le> 8 * x3" "(t2 - of_int ch * ?C) - t3 \<le> 8 * x3"
    and B3: "\<bar>p3\<bar> \<le> 3 * T2" "\<bar>t3\<bar> \<le> ?C + 9 * x3"
  proof -
    have "?C \<le> T2" using T2a by simp
    from div_floor_step[OF cC this T2c a2 x3_def] show ?thesis using that by metis
  qed
  have a3: "\<bar>t3\<bar> \<le> T3" using B3(2) by (simp add: T3_def)
  obtain kl p4 where
    S4: "ffloor (fdiv (Fin t3) (Fin ?K)) = Fin (of_int kl)"
      "fmul (Fin (of_int kl)) (Fin ?K) = Fin p4"
    and P4: "p4 - of_int kl * ?K \<le> 3 * x4" "of_int kl * ?K - p4 \<le> 3 * x4"
    and E4: "- x4 \<le> t3 - of_int kl * ?K" "t3 - of_int kl * ?K \<le> ?K + x4"
    and B4: "\<bar>p4\<bar> \<le> 3 * T3"
  proof -
    have "?K \<le> T3" using T3a by simp
    from div_floor_step[OF cK this T3c a3 x4_def] show ?thesis using that by metis
  qed
  have date: "earthSecondsToCyberDate (Fin s) =
      \<lparr>klik = Some (Fin (of_int kl)), chord = Some (Fin (of_int ch)),
         cycle = Some (Fin (of_int cy)), solarCycle = Some (Fin (of_int sc))\<rparr>"
    using f0 S1 S2 S3 S4(1) by (rule fromSeconds_steps)
  \<comment> \<open>the sum of the four products, and the seconds\<close>
  have Wsum: "W = 3 * T0 + 3 * T1 + 3 * T2 + 3 * T3" by (simp add: W_def)
  have Wpos: "0 \<le> W" "T0 + T1 + T2 + T3 \<le> W" "?A \<le> W"
    using T0a T1a T2a T3a Wsum by linarith+
  have wa: "0 \<le> w" "4 * w \<le> W" using nw Wpos by linarith+
  have Wlo: "1 / 2 ^ 1022 \<le> 2 * W"
  proof -
    have "(1::rat) / 2 ^ 1022 \<le> 1" by simp
    then show ?thesis using Wpos by linarith
  qed
  have Wb: "W \<le> 3333 * T0" using T1a T2b T3b Wsum by linarith
  have Whi: "2 * W * 86400 \<le> 2 ^ 1023"
  proof -
    have "2 * W * 86400 \<le> 2 * (3333 * 2 ^ 986) * 86400" using Wb T0b by simp
    also have "\<dots> \<le> (2::rat) ^ 1023" by simp
    finally show ?thesis .
  qed
  have Whi': "2 * W \<le> 2 ^ 1023" using Whi Wpos by linarith
  obtain a2 where A2: "rnd (p1 + p2) = Fin a2" and F2: "a2 - (p1 + p2) \<le> w" "(p1 + p2) - a2 \<le> w"
  proof -
    have "\<bar>p1 + p2\<bar> \<le> 2 * W" using B1(1) B2(1) T0a T1a T2a T3a Wsum by linarith
    from rnd_error_sides[OF this Wlo Whi' w_def] show ?thesis using that by blast
  qed
  obtain a3 where A3: "rnd (a2 + p3) = Fin a3" and F3: "a3 - (a2 + p3) \<le> w" "(a2 + p3) - a3 \<le> w"
  proof -
    have "\<bar>a2 + p3\<bar> \<le> 2 * W"
      using F2 B1(1) B2(1) B3(1) T0a T1a T2a T3a wa Wsum by linarith
    from rnd_error_sides[OF this Wlo Whi' w_def] show ?thesis using that by blast
  qed
  obtain a4 where A4: "rnd (a3 + p4) = Fin a4" and F4: "a4 - (a3 + p4) \<le> w" "(a3 + p4) - a4 \<le> w"
  proof -
    have "\<bar>a3 + p4\<bar> \<le> 2 * W"
      using F2 F3 B1(1) B2(1) B3(1) B4 T0a T1a T2a T3a wa Wsum by linarith
    from rnd_error_sides[OF this Wlo Whi' w_def] show ?thesis using that by blast
  qed
  have a4b: "\<bar>a4\<bar> \<le> 2 * W"
    using F2 F3 F4 B1(1) B2(1) B3(1) B4 T0a T1a T2a T3a wa Wsum by linarith
  obtain r where R: "rnd (a4 * 86400) = Fin r"
    and FR: "r - a4 * 86400 \<le> w * 86400" "a4 * 86400 - r \<le> w * 86400"
  proof -
    have b: "\<bar>a4 * 86400\<bar> \<le> 2 * W * 86400" using a4b by (simp add: abs_mult)
    have lo: "1 / 2 ^ 1022 \<le> 2 * W * 86400" using Wlo Wpos by linarith
    have "w * 86400 = 2 * W * 86400 / 2 ^ 53" by (simp add: w_def)
    from rnd_error_sides[OF b lo Whi this] show ?thesis using that by blast
  qed
  have seconds: "cyberDateToEarthSeconds
      \<lparr>klik = Some (Fin (of_int kl)), chord = Some (Fin (of_int ch)),
         cycle = Some (Fin (of_int cy)), solarCycle = Some (Fin (of_int sc))\<rparr> = Fin r"
  proof (rule toSeconds_steps[OF S1(2) S2(2) S3(2) S4(2)])
    show "fadd (Fin p1) (Fin p2) = Fin a2" by (simp add: A2)
    show "fadd (Fin a2) (Fin p3) = Fin a3" by (simp add: A3)
    show "fadd (Fin a3) (Fin p4) = Fin a4" by (simp add: A4)
    show "fmul (Fin a4) (Fin 86400) = Fin r" by (simp add: R)
  qed
  \<comment> \<open>the distance\<close>
  define \<Sigma> where
    "\<Sigma> = of_int sc * ?A + of_int cy * ?B + of_int ch * ?C + of_int kl * ?K"
  have stageA: "t0 - \<Sigma> \<le> ?K + x4 + 8 * x1 + 8 * x2 + 8 * x3"
    "- x4 - 8 * x1 - 8 * x2 - 8 * x3 \<le> t0 - \<Sigma>"
    using E1 E2 E3 E4 unfolding \<Sigma>_def by linarith+
  have stageB: "a4 - (p1 + p2 + p3 + p4) \<le> 3 * w" "(p1 + p2 + p3 + p4) - a4 \<le> 3 * w"
    using F2 F3 F4 by linarith+
  have stageC: "(p1 + p2 + p3 + p4) - \<Sigma> \<le> 3 * x1 + 3 * x2 + 3 * x3 + 3 * x4"
    "\<Sigma> - (p1 + p2 + p3 + p4) \<le> 3 * x1 + 3 * x2 + 3 * x3 + 3 * x4"
    using P1 P2 P3 P4 unfolding \<Sigma>_def by linarith+
  define b where "b = x0 + 11 * x1 + 11 * x2 + 11 * x3 + 4 * x4 + 4 * w"
  have stageD: "r - s \<le> 86400 * b" "s - r \<le> 86400 * ?K + 86400 * b"
    using stageA stageB stageC FR e0 sd b_def by linarith+
  have wx: "w = 6 * x1 + 6 * x2 + 6 * x3 + 6 * x4"
    using nw n1 n2 n3 n4 Wsum by linarith
  have budget: "86400 * b \<le> 1 / 10 ^ 5 + z"
  proof -
    have q1: "x1 * 9007199254740992 = 2 * d + ?A" using n1 by (simp add: T0_def)
    have q2: "x2 * 9007199254740992 = ?A + 9 * x1" using n2 by (simp add: T1_def)
    have q3: "x3 * 9007199254740992 = ?B + 9 * x2" using n3 by (simp add: T2_def)
    have q4: "x4 * 9007199254740992 = ?C + 9 * x3" using n4 by (simp add: T3_def)
    have "b = x0 + 35 * x1 + 35 * x2 + 35 * x3 + 28 * x4" unfolding b_def wx by simp
    then show ?thesis using n0 q1 q2 q3 q4 zd d0 by simp
  qed
  have "\<bar>r - s\<bar> \<le> 315576 / 1000 + 1 / 10 ^ 5 + z"
  proof -
    have "86400 * ?K \<le> 315576 / 1000" by simp
    then show ?thesis using stageD budget by linarith
  qed
  then show ?thesis unfolding z_def date seconds by blast
qed

theorem roundtrip_within_klik_and_rounding_witness:
  "(0::rat) \<le> 749493 \<and> (749493::rat) \<le> 2 ^ 1000 \<and>
   cyberDateToEarthSeconds (earthSecondsToCyberDate (Fin 749493)) =
     Fin (3217692534981525 / 4294967296) \<and>
   \<bar>3217692534981525 / 4294967296 - 749493 :: rat\<bar>
     \<le> 315576 / 1000 + 1 / 10 ^ 5 + 749493 / 2 ^ 45"
proof -
  have a: "(0::rat) \<le> 749493" and b: "(749493::rat) \<le> 2 ^ 1000" by simp_all
  from roundtrip_within_klik_and_rounding [OF a b] obtain r where
    r: "cyberDateToEarthSeconds (earthSecondsToCyberDate (Fin 749493)) = Fin r"
      "\<bar>r - 749493\<bar> \<le> 315576 / 1000 + 1 / 10 ^ 5 + 749493 / 2 ^ 45" by blast
  have "cyberDateToEarthSeconds (earthSecondsToCyberDate (Fin 749493)) =
      Fin (3217692534981525 / 4294967296)"
    by (simp add: fromSeconds_749493 toSeconds_74_3_2_0)
  with r have "r = 3217692534981525 / 4294967296" by simp
  with r(1,2) a b show ?thesis by blast
qed

end
